theory Spec2Isabelle
  imports Main "HOL-Library.Word" "HOL-Library.Signed_Division" "HOL-Library.Sublist"
begin

section \<open>Values of the Go program\<close>

text \<open>
  The package is Go. A Go string is a byte sequence (\<open>string\<close>, a \<open>char list\<close>).
  Go's \<open>int\<close> and \<open>int64\<close> are taken as 64-bit two's complement words (the
  width of \<open>int\<close> on 64-bit platforms): \<open>+\<close> and \<open>-\<close> wrap, \<open>sint\<close> reads the value.
  An \<open>error\<close> is the value a collaborator hands back; only its message is kept.
\<close>

type_synonym goint = "64 word"

type_synonym int64 = "64 word"

datatype error = Error string

text \<open>
  An element of the \<open>[]interface{}\<close> row handed to the copy statement: the code stores
  either \<open>nil\<close> (\<open>None\<close>, SQL NULL for the driver) or a string.
\<close>

type_synonym val = "string option"

section \<open>The template helpers \<open>fns\<close>\<close>

record upsertInfo =
  Table :: string
  TempTable :: string
  IdColumn :: string
  HasRevisions :: bool
  Columns :: "string list"

text \<open>
  The helpers take \<open>interface{}\<close> arguments. The dynamic values a template executed on
  an \<open>upsertInfo\<close> can pass are the untyped nil, the fields of the descriptor and
  their elements, the integers of \<open>range\<close> indices and \<open>len\<close>, and the descriptor.
\<close>

datatype go_value =
    GoNil
  | GoBool bool
  | GoInt goint
  | GoString string
  | GoStrings "string list"
  | GoInfo upsertInfo

datatype panic = UncomparableType

text \<open>
  Go's \<open>==\<close> on two interface values: they are equal when both have the same dynamic
  type and equal dynamic values; the comparison panics at run time when the two dynamic
  types are identical and that type is not comparable (a slice, or a struct with a slice
  field such as \<open>upsertInfo\<close>).
\<close>

fun comparable :: "go_value \<Rightarrow> bool" where
  "comparable (GoStrings _) = False"
| "comparable (GoInfo _) = False"
| "comparable _ = True"

fun same_type :: "go_value \<Rightarrow> go_value \<Rightarrow> bool" where
  "same_type GoNil GoNil = True"
| "same_type (GoBool _) (GoBool _) = True"
| "same_type (GoInt _) (GoInt _) = True"
| "same_type (GoString _) (GoString _) = True"
| "same_type (GoStrings _) (GoStrings _) = True"
| "same_type (GoInfo _) (GoInfo _) = True"
| "same_type _ _ = False"

definition fns_eq :: "go_value \<Rightarrow> go_value \<Rightarrow> panic + bool" where
  "fns_eq x y =
     (if same_type x y \<and> \<not> comparable x then Inl UncomparableType else Inr (x = y))"

text \<open>\<open>"sub": func(y, x int) int { return x - y }\<close>: the first parameter is \<open>y\<close>.\<close>

definition fns_sub :: "goint \<Rightarrow> goint \<Rightarrow> goint" where
  "fns_sub y x = x - y"

section \<open>\<open>buildQuery\<close>\<close>

text \<open>
  The two template files under \<open>sql/\<close> and the \<open>text/template\<close> engine are not part
  of the sources, so parsing and rendering are parameters: \<open>ParseFiles name file\<close>
  stands for \<open>template.New(name).Funcs(fns).ParseFiles(file)\<close> and \<open>Execute t info\<close>
  for the text that \<open>t.Execute\<close> writes into an empty buffer; either may fail.
  The result is Go's triple: the upsert text, the revision text, the error (\<open>None\<close> is
  \<open>nil\<close>).
\<close>

record 't template_engine =
  ParseFiles :: "string \<Rightarrow> string \<Rightarrow> error + 't"
  Execute :: "'t \<Rightarrow> upsertInfo \<Rightarrow> error + string"

definition buildQuery ::
  "'t template_engine \<Rightarrow> string \<Rightarrow> string \<Rightarrow> string \<Rightarrow> string list \<Rightarrow> bool
     \<Rightarrow> string \<times> string \<times> error option" where
  "buildQuery eng table tempTable idColumn columns hasRevisions =
     (case ParseFiles eng ''upsert.sql.template'' ''sql/upsert.sql.template'' of
        Inl err \<Rightarrow> ('''', '''', Some err)
      | Inr t \<Rightarrow>
          (let info = \<lparr>Table = table, TempTable = tempTable, IdColumn = idColumn,
                       HasRevisions = hasRevisions, Columns = columns\<rparr>
           in case Execute eng t info of
                Inl err \<Rightarrow> ('''', '''', Some err)
              | Inr upsertBuf \<Rightarrow>
                  (if hasRevisions then
                     (case ParseFiles eng ''updaterevisions.sql.template''
                             ''sql/updaterevisions.sql.template'' of
                        Inl err \<Rightarrow> ('''', '''', Some err)
                      | Inr t' \<Rightarrow>
                          (case Execute eng t' info of
                             Inl err \<Rightarrow> ('''', '''', Some err)
                           | Inr revisionBuf \<Rightarrow> (upsertBuf, revisionBuf, None)))
                   else (upsertBuf, '''', None))))"

section \<open>The database and what a run does to it\<close>

text \<open>
  The calls \<open>Upsert\<close> makes on \<open>database/sql\<close>. A transaction handle is numbered
  by the \<open>db.Begin()\<close> that returned it: 0 for the staging transaction, 1 for the merge
  transaction. \<open>TxnPrepare k t cs\<close> is \<open>txn.Prepare(pq.CopyIn(t, cs...))\<close>;
  \<open>StmtExec row\<close> is \<open>stmt.Exec(row...)\<close>, so the final \<open>stmt.Exec()\<close> is
  \<open>StmtExec []\<close>.
\<close>

datatype op =
    DbBegin
  | TxnExec nat string
  | TxnPrepare nat string "string list"
  | StmtExec "val list"
  | StmtClose
  | TxnCommit nat
  | DbExec string

text \<open>
  The database is a deterministic collaborator: its answer to a call is a function of the
  calls made so far. \<open>Inl e\<close> is a non-nil error, \<open>Inr n\<close> success, with \<open>n\<close> the
  \<open>RowsAffected\<close> of the result.
\<close>

type_synonym db = "op list \<Rightarrow> op \<Rightarrow> error + int64"

text \<open>
  What a run lets an observer see, in order: the database calls, each with the error it
  answered (\<open>None\<close> for \<open>nil\<close>), the lines given to \<open>log\<close>, and the
  \<open>fmt.Println("table", table, "row", row)\<close> of a failed append. Elapsed time is not
  modelled, so the total line carries the row count only.
\<close>

datatype logline =
    Starting
  | Processed goint
  | ProcessedTotal goint
  | CreatingIndex
  | Analyzing
  | CalculatingRevisions
  | UpdatedRevision int64
  | PerformingUpsert
  | Committing
  | Done

datatype event =
    Call op "error option"
  | Log logline
  | Println string "val list"

fun ops_of :: "event list \<Rightarrow> op list" where
  "ops_of [] = []"
| "ops_of (Call c r # tr) = c # ops_of tr"
| "ops_of (_ # tr) = ops_of tr"

type_synonym 'a act = "event list \<Rightarrow> (error + 'a) \<times> event list"

definition ret :: "'a \<Rightarrow> 'a act" where
  "ret x tr = (Inr x, tr)"

text \<open>\<open>seq m f\<close>: run \<open>m\<close>; \<open>if err != nil { return err }\<close>; go on with \<open>f\<close>.\<close>

definition seq :: "'a act \<Rightarrow> ('a \<Rightarrow> 'b act) \<Rightarrow> 'b act" where
  "seq m f tr = (case m tr of (Inl err, tr') \<Rightarrow> (Inl err, tr') | (Inr x, tr') \<Rightarrow> f x tr')"

definition exec :: "db \<Rightarrow> op \<Rightarrow> int64 act" where
  "exec db c tr =
     (let r = db (ops_of tr) c
      in (r, tr @ [Call c (case r of Inl err \<Rightarrow> Some err | Inr _ \<Rightarrow> None)]))"

definition say :: "logline \<Rightarrow> unit act" where
  "say l tr = (Inr (), tr @ [Log l])"

text \<open>A call whose \<open>err\<close> is assigned and overwritten before anything reads it.\<close>

definition ignoring :: "'a act \<Rightarrow> unit act" where
  "ignoring m tr = (Inr (), snd (m tr))"

section \<open>\<open>Upsert\<close>\<close>

text \<open>\<open>strings.Replace(table, ".", "_", -1)\<close>: every byte \<open>.\<close> becomes \<open>_\<close>.\<close>

definition replacePeriods :: "string \<Rightarrow> string" where
  "replacePeriods table = map (\<lambda>c. if c = CHR ''.'' then CHR ''_'' else c) table"

definition tempTable :: "string \<Rightarrow> string" where
  "tempTable table = replacePeriods table @ ''_temp''"

text \<open>The inner loop: \<open>row[i] = nil\<close> for an empty column, the column otherwise.\<close>

definition convertRow :: "string list \<Rightarrow> val list" where
  "convertRow rawRow = map (\<lambda>column. if column = '''' then None else Some column) rawRow"

text \<open>
  \<open>for rawRow := range rows\<close>, on the rows the channel delivers before it is closed.
  \<open>rowsProcessed % 100000\<close> is Go's truncated remainder on the signed value.
\<close>

fun copyRows :: "db \<Rightarrow> string \<Rightarrow> string list list \<Rightarrow> goint \<Rightarrow> goint act" where
  "copyRows db table [] rowsProcessed tr = (Inr rowsProcessed, tr)"
| "copyRows db table (rawRow # rows) rowsProcessed tr =
     (let row = convertRow rawRow in
      case exec db (StmtExec row) tr of
        (Inl err, tr') \<Rightarrow> (Inl err, tr' @ [Println table row])
      | (Inr _, tr') \<Rightarrow>
          (let n = rowsProcessed + 1;
               tr'' = (if sint n smod 100000 = 0 then tr' @ [Log (Processed n)] else tr')
           in copyRows db table rows n tr''))"

definition createTempSQL :: "string \<Rightarrow> string" where
  "createTempSQL table = ''CREATE TEMP TABLE '' @ tempTable table @ ''(LIKE '' @ table @ '')''"

definition createIndexSQL :: "string \<Rightarrow> string \<Rightarrow> string" where
  "createIndexSQL table idColumn =
     ''CREATE UNIQUE INDEX ON '' @ tempTable table @ ''('' @ idColumn @ '')''"

definition analyzeSQL :: "string \<Rightarrow> string" where
  "analyzeSQL table = ''ANALYZE '' @ tempTable table"

text \<open>
  The body of \<open>Upsert\<close> once the two statements are built: the staging transaction,
  the index and the statistics, the merge transaction.
\<close>

definition Upsert_run ::
  "db \<Rightarrow> string \<Rightarrow> string \<Rightarrow> string list \<Rightarrow> string list list \<Rightarrow> string \<Rightarrow> string
     \<Rightarrow> unit act" where
  "Upsert_run db table idColumn columns rows query revisionQuery =
     seq (say Starting) (\<lambda>_.
     seq (exec db DbBegin) (\<lambda>_.
     seq (exec db (TxnExec 0 (createTempSQL table))) (\<lambda>_.
     seq (exec db (TxnPrepare 0 (tempTable table) columns)) (\<lambda>_.
     seq (copyRows db table rows 0) (\<lambda>rowsProcessed.
     seq (exec db (StmtExec [])) (\<lambda>_.
     seq (exec db StmtClose) (\<lambda>_.
     seq (exec db (TxnCommit 0)) (\<lambda>_.
     seq (say (ProcessedTotal rowsProcessed)) (\<lambda>_.
     seq (say CreatingIndex) (\<lambda>_.
     seq (exec db (DbExec (createIndexSQL table idColumn))) (\<lambda>_.
     seq (say Analyzing) (\<lambda>_.
     seq (ignoring (exec db (DbExec (analyzeSQL table)))) (\<lambda>_.
     seq (exec db DbBegin) (\<lambda>_.
     seq (if revisionQuery \<noteq> '''' then
            seq (say CalculatingRevisions) (\<lambda>_.
            seq (exec db (TxnExec 1 revisionQuery)) (\<lambda>affected.
            say (UpdatedRevision affected)))
          else ret ()) (\<lambda>_.
     seq (say PerformingUpsert) (\<lambda>_.
     seq (exec db (TxnExec 1 query)) (\<lambda>_.
     seq (say Committing) (\<lambda>_.
     seq (exec db (TxnCommit 1)) (\<lambda>_.
     say Done)))))))))))))))))))"

text \<open>The returned \<open>error\<close> (\<open>None\<close> is \<open>nil\<close>) and what the run showed.\<close>

definition Upsert ::
  "'t template_engine \<Rightarrow> db \<Rightarrow> string \<Rightarrow> string \<Rightarrow> string list \<Rightarrow> string list list \<Rightarrow> bool
     \<Rightarrow> error option \<times> event list" where
  "Upsert eng db table idColumn columns rows hasRevisions =
     (case buildQuery eng table (tempTable table) idColumn columns hasRevisions of
        (query, revisionQuery, Some err) \<Rightarrow> (Some err, [])
      | (query, revisionQuery, None) \<Rightarrow>
          (case Upsert_run db table idColumn columns rows query revisionQuery [] of
             (Inl err, tr) \<Rightarrow> (Some err, tr)
           | (Inr _, tr) \<Rightarrow> (None, tr)))"

section \<open>The earlier revision, \<open>upsert.go\<close>\<close>

text \<open>
  The sources hold an earlier revision of the same file, without revisions, logging, index
  or statistics: one transaction creates the staging table, copies the rows, merges and
  commits. Its helper table \<open>fns\<close>, its row conversion and its handling of a failed
  append are those above; its staging name is the same text, built as
  \<open>tempTable + "_temp"\<close> where it is used. Its descriptor has no \<open>HasRevisions\<close>
  field, so its templates are a parameter of their own.
\<close>

record upsertInfo0 =
  Table0 :: string
  TempTable0 :: string
  IdColumn0 :: string
  Columns0 :: "string list"

record 't template_engine0 =
  ParseFiles0 :: "string \<Rightarrow> string \<Rightarrow> error + 't"
  Execute0 :: "'t \<Rightarrow> upsertInfo0 \<Rightarrow> error + string"

definition buildQuery0 ::
  "'t template_engine0 \<Rightarrow> string \<Rightarrow> string \<Rightarrow> string \<Rightarrow> string list
     \<Rightarrow> string \<times> error option" where
  "buildQuery0 eng table tempTable0 idColumn columns =
     (case ParseFiles0 eng ''upsert.sql.template'' ''sql/upsert.sql.template'' of
        Inl err \<Rightarrow> ('''', Some err)
      | Inr t \<Rightarrow>
          (let info = \<lparr>Table0 = table, TempTable0 = tempTable0, IdColumn0 = idColumn,
                       Columns0 = columns\<rparr>
           in case Execute0 eng t info of
                Inl err \<Rightarrow> ('''', Some err)
              | Inr buf \<Rightarrow> (buf, None)))"

fun copyRows0 :: "db \<Rightarrow> string \<Rightarrow> string list list \<Rightarrow> unit act" where
  "copyRows0 db table [] tr = (Inr (), tr)"
| "copyRows0 db table (rawRow # rows) tr =
     (let row = convertRow rawRow in
      case exec db (StmtExec row) tr of
        (Inl err, tr') \<Rightarrow> (Inl err, tr' @ [Println table row])
      | (Inr _, tr') \<Rightarrow> copyRows0 db table rows tr')"

definition createTempSQL0 :: "string \<Rightarrow> string" where
  "createTempSQL0 table =
     ''CREATE TEMP TABLE '' @ replacePeriods table @ ''_temp(LIKE '' @ table @
     '') ON COMMIT DROP;''"

definition Upsert0_run ::
  "db \<Rightarrow> string \<Rightarrow> string list \<Rightarrow> string list list \<Rightarrow> string \<Rightarrow> unit act" where
  "Upsert0_run db table columns rows query =
     seq (exec db DbBegin) (\<lambda>_.
     seq (exec db (TxnExec 0 (createTempSQL0 table))) (\<lambda>_.
     seq (exec db (TxnPrepare 0 (replacePeriods table @ ''_temp'') columns)) (\<lambda>_.
     seq (copyRows0 db table rows) (\<lambda>_.
     seq (exec db (StmtExec [])) (\<lambda>_.
     seq (exec db (TxnExec 0 query)) (\<lambda>_.
     seq (exec db (TxnCommit 0)) (\<lambda>_.
     ret ())))))))"

definition Upsert0 ::
  "'t template_engine0 \<Rightarrow> db \<Rightarrow> string \<Rightarrow> string \<Rightarrow> string list \<Rightarrow> string list list
     \<Rightarrow> error option \<times> event list" where
  "Upsert0 eng db table idColumn columns rows =
     (case buildQuery0 eng table (replacePeriods table) idColumn columns of
        (query, Some err) \<Rightarrow> (Some err, [])
      | (query, None) \<Rightarrow>
          (case Upsert0_run db table columns rows query [] of
             (Inl err, tr) \<Rightarrow> (Some err, tr)
           | (Inr _, tr) \<Rightarrow> (None, tr)))"

section \<open>The runs of \<open>Upsert\<close>, path by path\<close>

text \<open>
  The events of the appends the database accepts, the counter starting at \<open>n\<close>: the
  call, then the progress line when the new count is a multiple of 100000.
\<close>

fun okSteps :: "goint \<Rightarrow> string list list \<Rightarrow> event list" where
  "okSteps n [] = []"
| "okSteps n (rawRow # rows) =
     Call (StmtExec (convertRow rawRow)) None #
     (if sint (n + 1) smod 100000 = 0 then [Log (Processed (n + 1))] else []) @
     okSteps (n + 1) rows"

text \<open>
  The events of a run up to each of its phases, when every call so far was accepted:
  the staging transaction opened, the rows copied, the copy committed, the index built and
  the statistics asked for (\<open>ra\<close> is what ANALYZE answered).
\<close>

definition opened :: "string \<Rightarrow> string list \<Rightarrow> event list" where
  "opened table columns =
     [Log Starting, Call DbBegin None, Call (TxnExec 0 (createTempSQL table)) None,
      Call (TxnPrepare 0 (tempTable table) columns) None]"

definition copied :: "string \<Rightarrow> string list \<Rightarrow> string list list \<Rightarrow> event list" where
  "copied table columns rows = opened table columns @ okSteps 0 rows"

definition staged :: "string \<Rightarrow> string list \<Rightarrow> string list list \<Rightarrow> event list" where
  "staged table columns rows =
     copied table columns rows @
     [Call (StmtExec []) None, Call StmtClose None, Call (TxnCommit 0) None,
      Log (ProcessedTotal (of_nat (length rows))), Log CreatingIndex]"

definition indexed ::
  "string \<Rightarrow> string \<Rightarrow> string list \<Rightarrow> string list list \<Rightarrow> error option \<Rightarrow> event list" where
  "indexed table idColumn columns rows ra =
     staged table columns rows @
     [Call (DbExec (createIndexSQL table idColumn)) None, Log Analyzing,
      Call (DbExec (analyzeSQL table)) ra]"

text \<open>
  One rule for each \<open>return\<close> of \<open>Upsert\<close> after the statements are built: the
  returned error and the events of the run that ends there.
\<close>

inductive run_path ::
  "db \<Rightarrow> string \<Rightarrow> string \<Rightarrow> string list \<Rightarrow> string list list \<Rightarrow> string \<Rightarrow> string
     \<Rightarrow> error option \<Rightarrow> event list \<Rightarrow> bool"
  for db table idColumn columns rows query rq
where
  begin_fails:
    "db [] DbBegin = Inl e \<Longrightarrow>
     run_path db table idColumn columns rows query rq (Some e)
       [Log Starting, Call DbBegin (Some e)]"
| create_fails:
    "db [DbBegin] (TxnExec 0 (createTempSQL table)) = Inl e \<Longrightarrow>
     run_path db table idColumn columns rows query rq (Some e)
       [Log Starting, Call DbBegin None, Call (TxnExec 0 (createTempSQL table)) (Some e)]"
| prepare_fails:
    "db [DbBegin, TxnExec 0 (createTempSQL table)] (TxnPrepare 0 (tempTable table) columns) = Inl e \<Longrightarrow>
     run_path db table idColumn columns rows query rq (Some e)
       [Log Starting, Call DbBegin None, Call (TxnExec 0 (createTempSQL table)) None,
        Call (TxnPrepare 0 (tempTable table) columns) (Some e)]"
| append_fails:
    "k < length rows \<Longrightarrow>
     db (ops_of (copied table columns (take k rows))) (StmtExec (convertRow (rows ! k))) = Inl e \<Longrightarrow>
     run_path db table idColumn columns rows query rq (Some e)
       (copied table columns (take k rows) @
        [Call (StmtExec (convertRow (rows ! k))) (Some e),
         Println table (convertRow (rows ! k))])"
| flush_fails:
    "db (ops_of (copied table columns rows)) (StmtExec []) = Inl e \<Longrightarrow>
     run_path db table idColumn columns rows query rq (Some e)
       (copied table columns rows @ [Call (StmtExec []) (Some e)])"
| close_fails:
    "db (ops_of (copied table columns rows) @ [StmtExec []]) StmtClose = Inl e \<Longrightarrow>
     run_path db table idColumn columns rows query rq (Some e)
       (copied table columns rows @ [Call (StmtExec []) None, Call StmtClose (Some e)])"
| commit_fails:
    "db (ops_of (copied table columns rows) @ [StmtExec [], StmtClose]) (TxnCommit 0) = Inl e \<Longrightarrow>
     run_path db table idColumn columns rows query rq (Some e)
       (copied table columns rows @
        [Call (StmtExec []) None, Call StmtClose None, Call (TxnCommit 0) (Some e)])"
| index_fails:
    "db (ops_of (staged table columns rows)) (DbExec (createIndexSQL table idColumn)) = Inl e \<Longrightarrow>
     run_path db table idColumn columns rows query rq (Some e)
       (staged table columns rows @ [Call (DbExec (createIndexSQL table idColumn)) (Some e)])"
| begin2_fails:
    "db (ops_of (indexed table idColumn columns rows ra)) DbBegin = Inl e \<Longrightarrow>
     run_path db table idColumn columns rows query rq (Some e)
       (indexed table idColumn columns rows ra @ [Call DbBegin (Some e)])"
| revision_fails:
    "rq \<noteq> '''' \<Longrightarrow>
     db (ops_of (indexed table idColumn columns rows ra) @ [DbBegin]) (TxnExec 1 rq) = Inl e \<Longrightarrow>
     run_path db table idColumn columns rows query rq (Some e)
       (indexed table idColumn columns rows ra @
        [Call DbBegin None, Log CalculatingRevisions, Call (TxnExec 1 rq) (Some e)])"
| merge_fails:
    "rq = '''' \<Longrightarrow>
     db (ops_of (indexed table idColumn columns rows ra) @ [DbBegin]) (TxnExec 1 query) = Inl e \<Longrightarrow>
     run_path db table idColumn columns rows query rq (Some e)
       (indexed table idColumn columns rows ra @
        [Call DbBegin None, Log PerformingUpsert, Call (TxnExec 1 query) (Some e)])"
| merge_fails_rev:
    "rq \<noteq> '''' \<Longrightarrow>
     db (ops_of (indexed table idColumn columns rows ra) @ [DbBegin, TxnExec 1 rq])
        (TxnExec 1 query) = Inl e \<Longrightarrow>
     run_path db table idColumn columns rows query rq (Some e)
       (indexed table idColumn columns rows ra @
        [Call DbBegin None, Log CalculatingRevisions, Call (TxnExec 1 rq) None,
         Log (UpdatedRevision n), Log PerformingUpsert, Call (TxnExec 1 query) (Some e)])"
| commit2_fails:
    "rq = '''' \<Longrightarrow>
     db (ops_of (indexed table idColumn columns rows ra) @ [DbBegin, TxnExec 1 query])
        (TxnCommit 1) = Inl e \<Longrightarrow>
     run_path db table idColumn columns rows query rq (Some e)
       (indexed table idColumn columns rows ra @
        [Call DbBegin None, Log PerformingUpsert, Call (TxnExec 1 query) None, Log Committing,
         Call (TxnCommit 1) (Some e)])"
| commit2_fails_rev:
    "rq \<noteq> '''' \<Longrightarrow>
     db (ops_of (indexed table idColumn columns rows ra) @
           [DbBegin, TxnExec 1 rq, TxnExec 1 query]) (TxnCommit 1) = Inl e \<Longrightarrow>
     run_path db table idColumn columns rows query rq (Some e)
       (indexed table idColumn columns rows ra @
        [Call DbBegin None, Log CalculatingRevisions, Call (TxnExec 1 rq) None,
         Log (UpdatedRevision n), Log PerformingUpsert, Call (TxnExec 1 query) None,
         Log Committing, Call (TxnCommit 1) (Some e)])"
| completes:
    "rq = '''' \<Longrightarrow>
     run_path db table idColumn columns rows query rq None
       (indexed table idColumn columns rows ra @
        [Call DbBegin None, Log PerformingUpsert, Call (TxnExec 1 query) None, Log Committing,
         Call (TxnCommit 1) None, Log Done])"
| completes_rev:
    "rq \<noteq> '''' \<Longrightarrow>
     run_path db table idColumn columns rows query rq None
       (indexed table idColumn columns rows ra @
        [Call DbBegin None, Log CalculatingRevisions, Call (TxnExec 1 rq) None,
         Log (UpdatedRevision n), Log PerformingUpsert, Call (TxnExec 1 query) None,
         Log Committing, Call (TxnCommit 1) None, Log Done])"

text \<open>Observations on a run: the rows given to \<open>stmt.Exec\<close> with the error answered,
  the statements executed on transaction \<open>k\<close>, the counts of the progress lines, and the
  log lines.\<close>

fun appended :: "event list \<Rightarrow> (val list \<times> error option) list" where
  "appended [] = []"
| "appended (Call (StmtExec row) r # tr) = (row, r) # appended tr"
| "appended (_ # tr) = appended tr"

fun executed_in :: "nat \<Rightarrow> event list \<Rightarrow> string list" where
  "executed_in k [] = []"
| "executed_in k (Call (TxnExec j q) r # tr) =
     (if j = k then q # executed_in k tr else executed_in k tr)"
| "executed_in k (_ # tr) = executed_in k tr"

fun progress :: "event list \<Rightarrow> goint list" where
  "progress [] = []"
| "progress (Log (Processed c) # tr) = c # progress tr"
| "progress (_ # tr) = progress tr"

fun loglines :: "event list \<Rightarrow> logline list" where
  "loglines [] = []"
| "loglines (Log l # tr) = l # loglines tr"
| "loglines (_ # tr) = loglines tr"

text \<open>The rows of the stream the database accepted, read off the run.\<close>

definition accepted :: "string list list \<Rightarrow> event list \<Rightarrow> nat" where
  "accepted rows tr = length (filter (\<lambda>p. snd p = None) (take (length rows) (appended tr)))"

text \<open>A database that accepts every call.\<close>

definition healthy :: "db \<Rightarrow> bool" where
  "healthy db = (\<forall>h c. \<exists>n. db h c = Inr n)"

text \<open>The same for the earlier revision: the accepted appends, the events up to the end of
  the copy, and one rule for each of its \<open>return\<close>s.\<close>

definition okCalls :: "string list list \<Rightarrow> event list" where
  "okCalls rows = map (\<lambda>rawRow. Call (StmtExec (convertRow rawRow)) None) rows"

definition copied0 :: "string \<Rightarrow> string list \<Rightarrow> string list list \<Rightarrow> event list" where
  "copied0 table columns rows =
     [Call DbBegin None, Call (TxnExec 0 (createTempSQL0 table)) None,
      Call (TxnPrepare 0 (tempTable table) columns) None] @ okCalls rows"

inductive run_path0 ::
  "db \<Rightarrow> string \<Rightarrow> string list \<Rightarrow> string list list \<Rightarrow> string
     \<Rightarrow> error option \<Rightarrow> event list \<Rightarrow> bool"
  for db table columns rows query
where
  begin_fails0:
    "db [] DbBegin = Inl e \<Longrightarrow>
     run_path0 db table columns rows query (Some e) [Call DbBegin (Some e)]"
| create_fails0:
    "db [DbBegin] (TxnExec 0 (createTempSQL0 table)) = Inl e \<Longrightarrow>
     run_path0 db table columns rows query (Some e)
       [Call DbBegin None, Call (TxnExec 0 (createTempSQL0 table)) (Some e)]"
| prepare_fails0:
    "db [DbBegin, TxnExec 0 (createTempSQL0 table)] (TxnPrepare 0 (tempTable table) columns) = Inl e \<Longrightarrow>
     run_path0 db table columns rows query (Some e)
       [Call DbBegin None, Call (TxnExec 0 (createTempSQL0 table)) None,
        Call (TxnPrepare 0 (tempTable table) columns) (Some e)]"
| append_fails0:
    "k < length rows \<Longrightarrow>
     db (ops_of (copied0 table columns (take k rows))) (StmtExec (convertRow (rows ! k))) = Inl e \<Longrightarrow>
     run_path0 db table columns rows query (Some e)
       (copied0 table columns (take k rows) @
        [Call (StmtExec (convertRow (rows ! k))) (Some e),
         Println table (convertRow (rows ! k))])"
| flush_fails0:
    "db (ops_of (copied0 table columns rows)) (StmtExec []) = Inl e \<Longrightarrow>
     run_path0 db table columns rows query (Some e)
       (copied0 table columns rows @ [Call (StmtExec []) (Some e)])"
| merge_fails0:
    "db (ops_of (copied0 table columns rows) @ [StmtExec []]) (TxnExec 0 query) = Inl e \<Longrightarrow>
     run_path0 db table columns rows query (Some e)
       (copied0 table columns rows @ [Call (StmtExec []) None, Call (TxnExec 0 query) (Some e)])"
| commit_fails0:
    "db (ops_of (copied0 table columns rows) @ [StmtExec [], TxnExec 0 query]) (TxnCommit 0) = Inl e \<Longrightarrow>
     run_path0 db table columns rows query (Some e)
       (copied0 table columns rows @
        [Call (StmtExec []) None, Call (TxnExec 0 query) None, Call (TxnCommit 0) (Some e)])"
| completes0:
    "run_path0 db table columns rows query None
       (copied0 table columns rows @
        [Call (StmtExec []) None, Call (TxnExec 0 query) None, Call (TxnCommit 0) None])"

text \<open>The statements a run sends to the database, on either transaction or on the pool.\<close>

fun statements :: "event list \<Rightarrow> op list" where
  "statements [] = []"
| "statements (Call (TxnExec k q) r # tr) = TxnExec k q # statements tr"
| "statements (Call (DbExec q) r # tr) = DbExec q # statements tr"
| "statements (_ # tr) = statements tr"

text \<open>The calls of a complete run, in order.\<close>

definition fullPlan ::
  "string \<Rightarrow> string \<Rightarrow> string list \<Rightarrow> string list list \<Rightarrow> string \<Rightarrow> string \<Rightarrow> op list" where
  "fullPlan table idColumn columns rows query rq =
     [DbBegin, TxnExec 0 (createTempSQL table), TxnPrepare 0 (tempTable table) columns] @
     map (StmtExec \<circ> convertRow) rows @
     [StmtExec [], StmtClose, TxnCommit 0, DbExec (createIndexSQL table idColumn),
      DbExec (analyzeSQL table), DbBegin] @
     (if rq \<noteq> '''' then [TxnExec 1 rq] else []) @ [TxnExec 1 query, TxnCommit 1]"

text \<open>
  \<open>answered db h tr\<close>: every call of \<open>tr\<close> carries the answer the database gives to it
  after the calls \<open>h\<close> and those before it in \<open>tr\<close>.
\<close>

fun answered :: "db \<Rightarrow> op list \<Rightarrow> event list \<Rightarrow> bool" where
  "answered db h [] = True"
| "answered db h (Call c r # tr) =
     (r = (case db h c of Inl e \<Rightarrow> Some e | Inr _ \<Rightarrow> None) \<and> answered db (h @ [c]) tr)"
| "answered db h (Log l # tr) = answered db h tr"
| "answered db h (Println t row # tr) = answered db h tr"

text \<open>An action keeps the events truthful: what it adds carries the database's answers.\<close>

definition keeps :: "db \<Rightarrow> 'a act \<Rightarrow> bool" where
  "keeps db m = (\<forall>tr. answered db [] tr \<longrightarrow> answered db [] (snd (m tr)))"

text \<open>
  Duplicate identifiers. \<open>Upsert\<close> compares no identifiers itself: it leaves that to the
  unique index on the staging table. The identifier of a record is its field at the
  position of the identifier column among the columns. \<open>dupIds null p rs\<close> says that two
  of the rows \<open>rs\<close> have the same value at position \<open>p\<close>, and that this value is not
  \<open>null\<close>: the empty string for the records of the stream, \<open>NULL\<close> for the rows given to
  the database (a unique index does not tell two \<open>NULL\<close>s apart). What is asked of the
  database is written down as a contract, \<open>enforcesUnique\<close>: it refuses the unique index
  whenever two of the rows it was given so far carry the same identifier.
  \<open>accepts db h cs\<close> says that the database, after the calls \<open>h\<close>, accepts the calls
  \<open>cs\<close> one after the other; \<open>stagingOps\<close> are the calls of the staging phase.
\<close>

definition idPos :: "string \<Rightarrow> string list \<Rightarrow> nat" where
  "idPos idColumn columns = length (takeWhile (\<lambda>c. c \<noteq> idColumn) columns)"

fun dupIds :: "'a \<Rightarrow> nat \<Rightarrow> 'a list list \<Rightarrow> bool" where
  "dupIds null p [] = False"
| "dupIds null p (r # rs) =
     (list_ex (\<lambda>r'. p < length r \<and> p < length r' \<and> r ! p \<noteq> null \<and> r ! p = r' ! p) rs \<or>
      dupIds null p rs)"

fun appendedRows :: "op list \<Rightarrow> val list list" where
  "appendedRows [] = []"
| "appendedRows (StmtExec row # h) = row # appendedRows h"
| "appendedRows (_ # h) = appendedRows h"

definition enforcesUnique :: "db \<Rightarrow> string \<Rightarrow> string \<Rightarrow> string list \<Rightarrow> bool" where
  "enforcesUnique db table idColumn columns =
     (\<forall>h. dupIds None (idPos idColumn columns) (appendedRows h)
          \<longrightarrow> isl (db h (DbExec (createIndexSQL table idColumn))))"

definition stagingOps :: "string \<Rightarrow> string list \<Rightarrow> string list list \<Rightarrow> op list" where
  "stagingOps table columns rows =
     [DbBegin, TxnExec 0 (createTempSQL table), TxnPrepare 0 (tempTable table) columns] @
     map (StmtExec \<circ> convertRow) rows @ [StmtExec [], StmtClose, TxnCommit 0]"

fun accepts :: "db \<Rightarrow> op list \<Rightarrow> op list \<Rightarrow> bool" where
  "accepts db h [] = True"
| "accepts db h (c # cs) = (\<not> isl (db h c) \<and> accepts db (h @ [c]) cs)"

section \<open>Sample collaborators\<close>

text \<open>
  For the concrete runs below: a template engine that renders a fixed text for each of
  the two templates, a database that accepts everything, and one that rejects one call.
\<close>

definition demoEngine :: "string template_engine" where
  "demoEngine =
     \<lparr>ParseFiles = (\<lambda>name file. Inr name),
      Execute = (\<lambda>t info.
        Inr ((if t = ''upsert.sql.template'' then ''MERGE '' else ''REVISE '') @ Table info))\<rparr>"

definition okDb :: db where
  "okDb h c = Inr 0"

definition failsOn :: "op \<Rightarrow> error \<Rightarrow> db" where
  "failsOn c e h c' = (if c' = c then Inl e else Inr 0)"

definition demoEngine0 :: "string template_engine0" where
  "demoEngine0 =
     \<lparr>ParseFiles0 = (\<lambda>name file. Inr name),
      Execute0 = (\<lambda>t info. Inr (''MERGE '' @ Table0 info))\<rparr>"

text \<open>A database that refuses the unique index \<open>idx\<close> exactly when two of the rows it was
  given have the same value other than \<open>NULL\<close> at position \<open>p\<close>, and accepts every
  other call.\<close>

definition uniqueOn :: "nat \<Rightarrow> string \<Rightarrow> db" where
  "uniqueOn p idx h c =
     (if c = DbExec idx \<and> dupIds None p (appendedRows h)
      then Inl (Error ''could not create unique index'') else Inr 0)"

section \<open>Properties\<close>

lemma ops_of_append [simp]: "ops_of (a @ b) = ops_of a @ ops_of b"
  by (induction a rule: ops_of.induct) auto

lemma ops_of_okSteps [simp]: "ops_of (okSteps n rows) = map (StmtExec \<circ> convertRow) rows"
  by (induction rows arbitrary: n) simp_all

lemma copyRows_Cons_ok:
  assumes "db (ops_of tr) (StmtExec (convertRow rawRow)) = Inr x"
  shows "copyRows db table (rawRow # rows) n tr =
           copyRows db table rows (n + 1) (tr @ okSteps n [rawRow])"
  using assms by (simp add: exec_def Let_def)

lemma copyRows_Cons_err:
  assumes "db (ops_of tr) (StmtExec (convertRow rawRow)) = Inl e"
  shows "copyRows db table (rawRow # rows) n tr =
           (Inl e, tr @ [Call (StmtExec (convertRow rawRow)) (Some e),
                         Println table (convertRow rawRow)])"
  using assms by (simp add: exec_def Let_def)

declare copyRows.simps(2) [simp del]

lemma copyRows_cases:
  "copyRows db table rows n tr = (r, tr') \<Longrightarrow>
     (r = Inr (n + of_nat (length rows)) \<and> tr' = tr @ okSteps n rows) \<or>
     (\<exists>k e. k < length rows \<and> r = Inl e \<and>
        db (ops_of tr @ map (StmtExec \<circ> convertRow) (take k rows))
           (StmtExec (convertRow (rows ! k))) = Inl e \<and>
        tr' = tr @ okSteps n (take k rows) @
                [Call (StmtExec (convertRow (rows ! k))) (Some e),
                 Println table (convertRow (rows ! k))])"
proof (induction rows arbitrary: n tr)
  case Nil
  then show ?case by auto
next
  case (Cons rawRow rows)
  show ?case
  proof (cases "db (ops_of tr) (StmtExec (convertRow rawRow))")
    case (Inl e)
    have "copyRows db table (rawRow # rows) n tr =
           (Inl e, tr @ [Call (StmtExec (convertRow rawRow)) (Some e),
                         Println table (convertRow rawRow)])"
      using Inl by (rule copyRows_Cons_err)
    with Cons.prems have "r = Inl e"
      and "tr' = tr @ okSteps n (take 0 (rawRow # rows)) @
                 [Call (StmtExec (convertRow ((rawRow # rows) ! 0))) (Some e),
                  Println table (convertRow ((rawRow # rows) ! 0))]"
      by auto
    moreover have "db (ops_of tr @ map (StmtExec \<circ> convertRow) (take 0 (rawRow # rows)))
           (StmtExec (convertRow ((rawRow # rows) ! 0))) = Inl e"
      using Inl by simp
    moreover have "0 < length (rawRow # rows)" by simp
    ultimately show ?thesis by blast
  next
    case (Inr x)
    have "copyRows db table (rawRow # rows) n tr =
           copyRows db table rows (n + 1) (tr @ okSteps n [rawRow])"
      using Inr by (rule copyRows_Cons_ok)
    with Cons.prems have "copyRows db table rows (n + 1) (tr @ okSteps n [rawRow]) = (r, tr')"
      by simp
    from Cons.IH [OF this] show ?thesis
    proof (elim disjE exE conjE)
      assume "r = Inr (n + 1 + of_nat (length rows))"
        and "tr' = (tr @ okSteps n [rawRow]) @ okSteps (n + 1) rows"
      then have "r = Inr (n + of_nat (length (rawRow # rows)))"
        and "tr' = tr @ okSteps n (rawRow # rows)"
        by (simp_all add: add.assoc)
      then show ?thesis by blast
    next
      fix k e
      assume k: "k < length rows" and r: "r = Inl e"
        and d: "db (ops_of (tr @ okSteps n [rawRow]) @ map (StmtExec \<circ> convertRow) (take k rows))
                  (StmtExec (convertRow (rows ! k))) = Inl e"
        and t: "tr' = (tr @ okSteps n [rawRow]) @ okSteps (n + 1) (take k rows) @
                [Call (StmtExec (convertRow (rows ! k))) (Some e),
                 Println table (convertRow (rows ! k))]"
      have "Suc k < length (rawRow # rows)" using k by simp
      moreover have "db (ops_of tr @ map (StmtExec \<circ> convertRow) (take (Suc k) (rawRow # rows)))
           (StmtExec (convertRow ((rawRow # rows) ! Suc k))) = Inl e"
        using d by (simp split: if_splits)
      moreover have "tr' = tr @ okSteps n (take (Suc k) (rawRow # rows)) @
                [Call (StmtExec (convertRow ((rawRow # rows) ! Suc k))) (Some e),
                 Println table (convertRow ((rawRow # rows) ! Suc k))]"
        using t by simp
      ultimately show ?thesis using r by blast
    qed
  qed
qed

lemma seq_exec:
  "seq (exec db c) f tr =
     (case db (ops_of tr) c of
        Inl e \<Rightarrow> (Inl e, tr @ [Call c (Some e)])
      | Inr x \<Rightarrow> f x (tr @ [Call c None]))"
  by (simp add: seq_def exec_def Let_def split: sum.splits)

lemma seq_say: "seq (say l) f tr = f () (tr @ [Log l])"
  by (simp add: seq_def say_def)

lemma seq_ignoring_exec:
  "seq (ignoring (exec db c)) f tr =
     f () (tr @ [Call c (case db (ops_of tr) c of Inl e \<Rightarrow> Some e | Inr _ \<Rightarrow> None)])"
  by (simp add: seq_def ignoring_def exec_def Let_def)

lemma seq_copyRows:
  "seq (copyRows db table rows n) f tr =
     (case copyRows db table rows n tr of
        (Inl e, tr') \<Rightarrow> (Inl e, tr')
      | (Inr m, tr') \<Rightarrow> f m tr')"
  by (simp add: seq_def)

lemma seq_ret: "seq (ret x) f = f x"
  by (rule ext) (simp add: seq_def ret_def)

lemma seq_assoc: "seq (seq m f) g = seq m (\<lambda>x. seq (f x) g)"
  by (rule ext) (simp add: seq_def split: prod.splits sum.splits)

lemmas run_path_norm =
  run_path.intros [unfolded indexed_def staged_def copied_def opened_def, simplified]

lemma Upsert_run_path:
  assumes "Upsert_run db table idColumn columns rows query rq [] = (r, tr)"
  shows "run_path db table idColumn columns rows query rq
           (case r of Inl e \<Rightarrow> Some e | Inr _ \<Rightarrow> None) tr"
  using assms unfolding Upsert_run_def
  apply (simp add: seq_exec seq_say seq_ignoring_exec seq_copyRows seq_ret seq_assoc say_def
      split: sum.splits prod.splits if_splits)
  apply (intro conjI allI impI)
  apply (auto dest!: copyRows_cases  intro: run_path_norm)
  done

subsection \<open>What a run shows\<close>

lemma appended_append [simp]: "appended (a @ b) = appended a @ appended b"
  by (induction a rule: appended.induct) auto

lemma executed_in_append [simp]: "executed_in k (a @ b) = executed_in k a @ executed_in k b"
  by (induction k a rule: executed_in.induct) auto

lemma progress_append [simp]: "progress (a @ b) = progress a @ progress b"
  by (induction a rule: progress.induct) auto

lemma loglines_append [simp]: "loglines (a @ b) = loglines a @ loglines b"
  by (induction a rule: loglines.induct) auto

lemma appended_okSteps [simp]:
  "appended (okSteps n rows) = map (\<lambda>rawRow. (convertRow rawRow, None)) rows"
  by (induction rows arbitrary: n) simp_all

lemma executed_in_okSteps [simp]: "executed_in k (okSteps n rows) = []"
  by (induction rows arbitrary: n) simp_all

lemma loglines_okSteps [simp]: "loglines (okSteps n rows) = map Processed (progress (okSteps n rows))"
  by (induction rows arbitrary: n) simp_all

lemma Call_in_okSteps [simp]:
  "Call c r \<in> set (okSteps n rows) \<longleftrightarrow> r = None \<and> c \<in> StmtExec ` convertRow ` set rows"
  by (induction rows arbitrary: n) auto

lemma Log_in_okSteps: "Log l \<in> set (okSteps n rows) \<Longrightarrow> \<exists>c. l = Processed c"
  by (induction rows arbitrary: n) (auto split: if_splits)

lemma Println_in_okSteps [simp]: "Println t row \<notin> set (okSteps n rows)"
  by (induction rows arbitrary: n) auto

lemma index_not_analyze [simp]: "createIndexSQL t i \<noteq> analyzeSQL t'"
  by (simp add: createIndexSQL_def analyzeSQL_def)

lemma analyze_not_index [simp]: "analyzeSQL t' \<noteq> createIndexSQL t i"
  by (simp add: createIndexSQL_def analyzeSQL_def)

lemma tempTable_differs [simp]: "tempTable table \<noteq> table"
proof
  assume "tempTable table = table"
  then have "length (tempTable table) = length table" by simp
  then show False by (simp add: tempTable_def replacePeriods_def)
qed

lemma Upsert_cases [consumes 1, case_names build run]:
  assumes "Upsert eng db table idColumn columns rows hasRevisions = (res, tr)"
  obtains
    (build) e q r where
      "buildQuery eng table (tempTable table) idColumn columns hasRevisions = (q, r, Some e)"
      "res = Some e" "tr = []"
  | (run) query rq where
      "buildQuery eng table (tempTable table) idColumn columns hasRevisions = (query, rq, None)"
      "run_path db table idColumn columns rows query rq res tr"
proof (cases "buildQuery eng table (tempTable table) idColumn columns hasRevisions")
  case (fields query rq err)
  show ?thesis
  proof (cases err)
    case None
    obtain r tr' where r: "Upsert_run db table idColumn columns rows query rq [] = (r, tr')"
      by (cases "Upsert_run db table idColumn columns rows query rq []")
    with assms fields None have "res = (case r of Inl e \<Rightarrow> Some e | Inr _ \<Rightarrow> None)" "tr = tr'"
      by (auto simp: Upsert_def split: sum.splits)
    with Upsert_run_path [OF r] fields None show ?thesis by (auto intro: run)
  next
    case (Some e)
    with assms fields show ?thesis by (auto simp: Upsert_def intro: build)
  qed
qed

lemmas trace_defs = indexed_def staged_def copied_def opened_def


lemma appended_rows_prefix:
  assumes "run_path db table idColumn columns rows query rq res tr"
  shows "prefix (map fst (appended tr)) (map convertRow rows @ [[]])"
  using assms
proof cases
  case (append_fails k e)
  have "map convertRow (take k rows) @ [convertRow (rows ! k)] = take (Suc k) (map convertRow rows)"
    using append_fails by (simp add: take_Suc_conv_app_nth take_map)
  moreover have "prefix (take (Suc k) (map convertRow rows)) (map convertRow rows @ [[]])"
    by (simp add: take_is_prefix)
  ultimately show ?thesis
    using append_fails by (simp add: trace_defs comp_def)
qed (simp_all add: trace_defs comp_def)

lemma prefix_nth: "prefix xs ys \<Longrightarrow> i < length xs \<Longrightarrow> xs ! i = ys ! i"
  by (auto simp: prefix_def nth_append)

lemma convertRow_nth:
  "i < length rawRow \<Longrightarrow>
     (convertRow rawRow ! i = None \<longleftrightarrow> rawRow ! i = '''') \<and>
     (rawRow ! i \<noteq> '''' \<longrightarrow> convertRow rawRow ! i = Some (rawRow ! i))"
  by (simp add: convertRow_def)

lemma sint_of_nat_small: "i < 2 ^ 63 \<Longrightarrow> sint (of_nat i :: 64 word) = int i"
proof -
  assume "i < 2 ^ 63"
  then have "int i < 2 ^ 63" by (metis of_nat_less_iff of_nat_numeral of_nat_power)
  then show ?thesis
    by (simp add: signed_of_nat signed_take_bit_int_eq_self)
qed

lemma smod_zero_iff_dvd: "int i smod 100000 = 0 \<longleftrightarrow> 100000 dvd i"
proof -
  have "int i smod 100000 = int i mod 100000"
    by (cases "i = 0") (simp_all add: smod_int_alt_def)
  then show ?thesis by presburger
qed

lemma progress_okSteps:
  "progress (okSteps n rows) =
     filter (\<lambda>c. sint c smod 100000 = 0) (map (\<lambda>i. n + of_nat i) [1..<Suc (length rows)])"
proof (induction rows arbitrary: n)
  case Nil
  then show ?case by simp
next
  case (Cons rawRow rows)
  have "[1..<Suc (length (rawRow # rows))] = 1 # map Suc [1..<Suc (length rows)]"
    by (simp add: map_Suc_upt upt_conv_Cons del: upt_Suc)
  moreover have "map (\<lambda>i. n + of_nat i) (map Suc [1..<Suc (length rows)]) =
                 map (\<lambda>i. n + 1 + of_nat i) [1..<Suc (length rows)]"
    by (simp add: add.assoc)
  ultimately show ?case
    using Cons.IH [of "n + 1"] by (simp add: comp_def add.assoc del: upt_Suc)
qed

lemma progress_okSteps_0:
  assumes "length rows < 2 ^ 63"
  shows "progress (okSteps 0 rows) =
           map of_nat (filter (\<lambda>i. 100000 dvd i) [1..<Suc (length rows)])"
proof -
  have "sint (of_nat i :: 64 word) smod 100000 = 0 \<longleftrightarrow> 100000 dvd i"
    if "i \<in> set [1..<Suc (length rows)]" for i
  proof -
    from that have "i \<le> length rows" by (simp del: upt_Suc)
    then have "i < 2 ^ 63" using assms by (rule le_less_trans)
    then show ?thesis by (simp add: sint_of_nat_small smod_zero_iff_dvd)
  qed
  then have "filter (\<lambda>i. sint (of_nat i :: 64 word) smod 100000 = 0) [1..<Suc (length rows)] =
             filter (\<lambda>i. 100000 dvd i) [1..<Suc (length rows)]"
    by (intro filter_cong refl)
  then show ?thesis
    by (simp add: progress_okSteps filter_map comp_def del: upt_Suc)
qed

lemma copyRows_counter_free:
  "ops_of tr = ops_of tr' \<Longrightarrow>
     ops_of (snd (copyRows db table rows n tr)) = ops_of (snd (copyRows db table rows n' tr')) \<and>
     map_sum id (\<lambda>_. ()) (fst (copyRows db table rows n tr)) =
     map_sum id (\<lambda>_. ()) (fst (copyRows db table rows n' tr'))"
proof (induction rows arbitrary: n n' tr tr')
  case Nil
  then show ?case by simp
next
  case (Cons rawRow rows)
  show ?case
  proof (cases "db (ops_of tr) (StmtExec (convertRow rawRow))")
    case (Inl e)
    then have "db (ops_of tr') (StmtExec (convertRow rawRow)) = Inl e"
      using Cons.prems by simp
    with Inl Cons.prems show ?thesis
      using copyRows_Cons_err [where db=db and tr=tr and rawRow=rawRow]
        copyRows_Cons_err [where db=db and tr=tr' and rawRow=rawRow]
      by simp
  next
    case (Inr x)
    then have r': "db (ops_of tr') (StmtExec (convertRow rawRow)) = Inr x"
      using Cons.prems by simp
    have "ops_of (tr @ okSteps n [rawRow]) = ops_of (tr' @ okSteps n' [rawRow])"
      using Cons.prems by (simp del: okSteps.simps)
    from Cons.IH [OF this, of "n + 1" "n' + 1"] show ?thesis
      using copyRows_Cons_ok [where db=db and tr=tr and rawRow=rawRow, OF Inr]
        copyRows_Cons_ok [where db=db and tr=tr' and rawRow=rawRow, OF r']
      by simp
  qed
qed

subsection \<open>The earlier revision\<close>

lemma ops_of_okCalls [simp]: "ops_of (okCalls rows) = map (StmtExec \<circ> convertRow) rows"
  by (induction rows) (simp_all add: okCalls_def)

lemma okCalls_Cons:
  "okCalls (rawRow # rows) = Call (StmtExec (convertRow rawRow)) None # okCalls rows"
  by (simp add: okCalls_def)

lemma okCalls_Nil [simp]: "okCalls [] = []"
  by (simp add: okCalls_def)

lemma copyRows0_cases:
  "copyRows0 db table rows tr = (r, tr') \<Longrightarrow>
     (r = Inr () \<and> tr' = tr @ okCalls rows) \<or>
     (\<exists>k e. k < length rows \<and> r = Inl e \<and>
        db (ops_of tr @ map (StmtExec \<circ> convertRow) (take k rows))
           (StmtExec (convertRow (rows ! k))) = Inl e \<and>
        tr' = tr @ okCalls (take k rows) @
                [Call (StmtExec (convertRow (rows ! k))) (Some e),
                 Println table (convertRow (rows ! k))])"
proof (induction rows arbitrary: tr)
  case Nil
  then show ?case by auto
next
  case (Cons rawRow rows)
  show ?case
  proof (cases "db (ops_of tr) (StmtExec (convertRow rawRow))")
    case (Inl e)
    with Cons.prems have "r = Inl e"
      and "tr' = tr @ okCalls (take 0 (rawRow # rows)) @
                 [Call (StmtExec (convertRow ((rawRow # rows) ! 0))) (Some e),
                  Println table (convertRow ((rawRow # rows) ! 0))]"
      by (auto simp: exec_def Let_def)
    moreover have "db (ops_of tr @ map (StmtExec \<circ> convertRow) (take 0 (rawRow # rows)))
           (StmtExec (convertRow ((rawRow # rows) ! 0))) = Inl e"
      using Inl by simp
    moreover have "0 < length (rawRow # rows)" by simp
    ultimately show ?thesis by blast
  next
    case (Inr x)
    with Cons.prems
    have "copyRows0 db table rows (tr @ [Call (StmtExec (convertRow rawRow)) None]) = (r, tr')"
      by (simp add: exec_def Let_def)
    from Cons.IH [OF this] show ?thesis
    proof (elim disjE exE conjE)
      assume "r = Inr ()"
        and "tr' = (tr @ [Call (StmtExec (convertRow rawRow)) None]) @ okCalls rows"
      then show ?thesis by (simp add: okCalls_Cons)
    next
      fix k e
      assume k: "k < length rows" and r: "r = Inl e"
        and d: "db (ops_of (tr @ [Call (StmtExec (convertRow rawRow)) None]) @
                    map (StmtExec \<circ> convertRow) (take k rows))
                  (StmtExec (convertRow (rows ! k))) = Inl e"
        and t: "tr' = (tr @ [Call (StmtExec (convertRow rawRow)) None]) @ okCalls (take k rows) @
                [Call (StmtExec (convertRow (rows ! k))) (Some e),
                 Println table (convertRow (rows ! k))]"
      have "Suc k < length (rawRow # rows)" using k by simp
      moreover have "db (ops_of tr @ map (StmtExec \<circ> convertRow) (take (Suc k) (rawRow # rows)))
           (StmtExec (convertRow ((rawRow # rows) ! Suc k))) = Inl e"
        using d by simp
      moreover have "tr' = tr @ okCalls (take (Suc k) (rawRow # rows)) @
                [Call (StmtExec (convertRow ((rawRow # rows) ! Suc k))) (Some e),
                 Println table (convertRow ((rawRow # rows) ! Suc k))]"
        using t by (simp add: okCalls_Cons)
      ultimately show ?thesis using r by blast
    qed
  qed
qed

declare copyRows0.simps(2) [simp del]

lemma seq_copyRows0:
  "seq (copyRows0 db table rows) f tr =
     (case copyRows0 db table rows tr of
        (Inl e, tr') \<Rightarrow> (Inl e, tr')
      | (Inr m, tr') \<Rightarrow> f m tr')"
  by (simp add: seq_def)

lemmas run_path0_norm = run_path0.intros [unfolded copied0_def tempTable_def, simplified]

lemma Upsert0_run_path:
  assumes "Upsert0_run db table columns rows query [] = (r, tr)"
  shows "run_path0 db table columns rows query
           (case r of Inl e \<Rightarrow> Some e | Inr _ \<Rightarrow> None) tr"
  using assms unfolding Upsert0_run_def
  apply (simp add: seq_exec seq_copyRows0 ret_def split: sum.splits prod.splits)
  apply (auto dest!: copyRows0_cases intro: run_path0_norm)
  done

lemma Upsert0_cases [consumes 1, case_names build run]:
  assumes "Upsert0 eng db table idColumn columns rows = (res, tr)"
  obtains
    (build) e q where
      "buildQuery0 eng table (replacePeriods table) idColumn columns = (q, Some e)"
      "res = Some e" "tr = []"
  | (run) query where
      "buildQuery0 eng table (replacePeriods table) idColumn columns = (query, None)"
      "run_path0 db table columns rows query res tr"
proof (cases "buildQuery0 eng table (replacePeriods table) idColumn columns")
  case (Pair query err)
  show ?thesis
  proof (cases err)
    case None
    obtain r tr' where r: "Upsert0_run db table columns rows query [] = (r, tr')"
      by (cases "Upsert0_run db table columns rows query []")
    with assms Pair None have "res = (case r of Inl e \<Rightarrow> Some e | Inr _ \<Rightarrow> None)" "tr = tr'"
      by (auto simp: Upsert0_def split: sum.splits)
    with Upsert0_run_path [OF r] Pair None show ?thesis by (auto intro: run)
  next
    case (Some e)
    with assms Pair show ?thesis by (auto simp: Upsert0_def intro: build)
  qed
qed

lemma appended_okCalls [simp]:
  "appended (okCalls rows) = map (\<lambda>rawRow. (convertRow rawRow, None)) rows"
  by (induction rows) (simp_all add: okCalls_def)

lemma Call_in_okCalls [simp]:
  "Call c r \<in> set (okCalls rows) \<longleftrightarrow> r = None \<and> c \<in> StmtExec ` convertRow ` set rows"
  by (auto simp: okCalls_def)

lemma appended_rows_prefix0:
  assumes "run_path0 db table columns rows query res tr"
  shows "prefix (map fst (appended tr)) (map convertRow rows @ [[]])"
  using assms
proof cases
  case (append_fails0 k e)
  have "map convertRow (take k rows) @ [convertRow (rows ! k)] = take (Suc k) (map convertRow rows)"
    using append_fails0 by (simp add: take_Suc_conv_app_nth take_map)
  moreover have "prefix (take (Suc k) (map convertRow rows)) (map convertRow rows @ [[]])"
    by (simp add: take_is_prefix)
  ultimately show ?thesis
    using append_fails0 by (simp add: copied0_def comp_def)
qed (simp_all add: copied0_def comp_def)

lemma append_failure_new:
  assumes "run_path db table idColumn columns rows query rq res tr"
    and "k < length rows" and "k < length (appended tr)" and "snd (appended tr ! k) = Some e"
  shows "res = Some e \<and>
         tr = copied table columns (take k rows) @
              [Call (StmtExec (convertRow (rows ! k))) (Some e),
               Println table (convertRow (rows ! k))] \<and>
         db (ops_of (copied table columns (take k rows))) (StmtExec (convertRow (rows ! k))) = Inl e \<and>
         (\<forall>j r. Call (TxnCommit j) r \<notin> set tr)"
  using assms
  by cases (auto simp: trace_defs nth_append less_Suc_eq split: if_splits)

lemma append_failure_old:
  assumes "run_path0 db table columns rows query res tr"
    and "k < length rows" and "k < length (appended tr)" and "snd (appended tr ! k) = Some e"
  shows "res = Some e \<and>
         tr = copied0 table columns (take k rows) @
              [Call (StmtExec (convertRow (rows ! k))) (Some e),
               Println table (convertRow (rows ! k))] \<and>
         db (ops_of (copied0 table columns (take k rows))) (StmtExec (convertRow (rows ! k))) = Inl e \<and>
         (\<forall>j r. Call (TxnCommit j) r \<notin> set tr)"
  using assms
  by cases (auto simp: copied0_def nth_append less_Suc_eq split: if_splits)

lemma appended_copied [simp]:
  "appended (copied table columns rows) = map (\<lambda>rawRow. (convertRow rawRow, None)) rows"
  "appended (copied0 table columns rows) = map (\<lambda>rawRow. (convertRow rawRow, None)) rows"
  by (simp_all add: trace_defs copied0_def)

lemma healthy_completes:
  assumes "healthy db"
    and "Upsert eng db table idColumn columns rows hasRevisions = (res, tr)"
    and "snd (snd (buildQuery eng table (tempTable table) idColumn columns hasRevisions)) = None"
  shows "res = None \<and> accepted rows tr = length rows"
proof -
  from assms(1) have h: "\<And>h c e. db h c = Inl e \<Longrightarrow> False"
    by (metis healthy_def Inl_Inr_False)
  from assms(2) show ?thesis
  proof (cases rule: Upsert_cases)
    case (build e q r)
    with assms(3) show ?thesis by simp
  next
    case (run query rq)
    from run(2) show ?thesis
      by cases (auto simp: trace_defs accepted_def comp_def dest: h)
  qed
qed

lemma first_multiple: "filter (\<lambda>i. 100000 dvd i) [1..<Suc 100000] = [100000::nat]"
proof -
  have "\<forall>i\<in>set [1..<100000]. \<not> 100000 dvd (i::nat)"
    by (auto dest: dvd_imp_le)
  then have "filter (\<lambda>i. 100000 dvd i) [1..<100000] = ([]::nat list)"
    by (rule filter_False)
  moreover have "[1..<Suc 100000] = [1..<100000] @ [100000::nat]"
    by (rule upt_Suc_append) simp
  ultimately show ?thesis by (simp only: filter_append filter.simps dvd_refl if_True append_Nil)
qed

subsection \<open>The order of the calls, and duplicate identifiers\<close>

lemma statements_append [simp]: "statements (a @ b) = statements a @ statements b"
  by (induction a rule: statements.induct) auto

lemma statements_okSteps [simp]: "statements (okSteps n rows) = []"
  by (induction rows arbitrary: n) simp_all

lemma prefix_take_map:
  "k < length rows \<Longrightarrow>
     prefix (map f (take k rows) @ [f (rows ! k)]) (map f rows @ rest)"
proof -
  assume "k < length rows"
  then have "map f (take k rows) @ [f (rows ! k)] = take (Suc k) (map f rows)"
    by (simp add: take_Suc_conv_app_nth take_map)
  moreover have "prefix (take (Suc k) (map f rows)) (map f rows @ rest)"
    by (simp add: take_is_prefix)
  ultimately show ?thesis by simp
qed

lemma run_ops_prefix:
  assumes "run_path db table idColumn columns rows query rq res tr"
  shows "prefix (ops_of tr) (fullPlan table idColumn columns rows query rq)"
  using assms
proof cases
  case (append_fails k e)
  then show ?thesis
    using prefix_take_map [of k rows "StmtExec \<circ> convertRow"]
    by (simp add: trace_defs fullPlan_def)
qed (simp_all add: trace_defs fullPlan_def)

lemma run_statements_prefix:
  assumes "run_path db table idColumn columns rows query rq res tr" and "rq \<noteq> ''''"
  shows "prefix (statements tr)
           [TxnExec 0 (createTempSQL table), DbExec (createIndexSQL table idColumn),
            DbExec (analyzeSQL table), TxnExec 1 rq, TxnExec 1 query]"
  using assms
  by cases (simp_all add: trace_defs)

lemma appendedRows_append [simp]: "appendedRows (a @ b) = appendedRows a @ appendedRows b"
  by (induction a rule: appendedRows.induct) auto

lemma appendedRows_map [simp]: "appendedRows (map (StmtExec \<circ> f) rows) = map f rows"
  by (induction rows) simp_all

lemma dupIds_appendI: "dupIds null p xs \<Longrightarrow> dupIds null p (xs @ ys)"
  by (induction xs) (auto simp: list_ex_iff)

lemma dupIds_convertRow: "dupIds [] p rows \<Longrightarrow> dupIds None p (map convertRow rows)"
  by (induction rows) (auto simp: list_ex_iff convertRow_def)

lemma accepts_append: "accepts db h (xs @ ys) = (accepts db h xs \<and> accepts db (h @ xs) ys)"
  by (induction xs arbitrary: h) auto

lemma not_isl_Inr: "\<not> isl x \<Longrightarrow> \<exists>n. x = Inr n"
  by (cases x) auto

lemma copyRows_accepted:
  "accepts db (ops_of tr) (map (StmtExec \<circ> convertRow) rows) \<Longrightarrow>
     copyRows db table rows n tr = (Inr (n + of_nat (length rows)), tr @ okSteps n rows)"
proof (induction rows arbitrary: n tr)
  case Nil
  then show ?case by simp
next
  case (Cons rawRow rows)
  from Cons.prems obtain x where x: "db (ops_of tr) (StmtExec (convertRow rawRow)) = Inr x"
    by (auto dest: not_isl_Inr)
  have "accepts db (ops_of (tr @ okSteps n [rawRow])) (map (StmtExec \<circ> convertRow) rows)"
    using Cons.prems by (simp add: comp_def del: okSteps.simps)
  from Cons.IH [OF this, of "n + 1"] show ?case
    using copyRows_Cons_ok [where db=db and tr=tr and rawRow=rawRow, OF x]
    by (simp add: add.assoc)
qed

lemma Upsert_run_index_rejected:
  assumes acc: "accepts db [] (stagingOps table columns rows)"
    and rej: "db (stagingOps table columns rows) (DbExec (createIndexSQL table idColumn)) = Inl e"
  shows "Upsert_run db table idColumn columns rows query rq [] =
           (Inl e, staged table columns rows @
                   [Call (DbExec (createIndexSQL table idColumn)) (Some e)])"
proof -
  let ?h3 = "[DbBegin, TxnExec 0 (createTempSQL table), TxnPrepare 0 (tempTable table) columns]"
  let ?hr = "?h3 @ map (StmtExec \<circ> convertRow) rows"
  from acc have a3: "accepts db [] ?h3" and ar: "accepts db ?h3 (map (StmtExec \<circ> convertRow) rows)"
    and at: "accepts db ?hr [StmtExec [], StmtClose, TxnCommit 0]"
    by (simp_all add: stagingOps_def accepts_append)
  from a3 obtain x1 x2 x3 where
    b: "db [] DbBegin = Inr x1" "db [DbBegin] (TxnExec 0 (createTempSQL table)) = Inr x2"
       "db [DbBegin, TxnExec 0 (createTempSQL table)] (TxnPrepare 0 (tempTable table) columns) = Inr x3"
    by (auto dest!: not_isl_Inr)
  from at obtain y1 y2 y3 where
    c: "db ?hr (StmtExec []) = Inr y1" "db (?hr @ [StmtExec []]) StmtClose = Inr y2"
       "db (?hr @ [StmtExec [], StmtClose]) (TxnCommit 0) = Inr y3"
    by (auto dest!: not_isl_Inr)
  have loop: "copyRows db table rows 0 (opened table columns) =
          (Inr (of_nat (length rows)), opened table columns @ okSteps 0 rows)"
    using copyRows_accepted [of db "opened table columns" rows table 0] ar
    by (simp add: opened_def)
  from rej have rej': "db (?hr @ [StmtExec [], StmtClose, TxnCommit 0])
      (DbExec (createIndexSQL table idColumn)) = Inl e"
    by (simp add: stagingOps_def)
  show ?thesis
    unfolding Upsert_run_def
    using b c rej' loop
    by (simp add: seq_exec seq_say seq_copyRows trace_defs)
qed

lemma tempTable_text: "tempTable table = replacePeriods table @ ''_temp''"
  by (simp add: tempTable_def)

lemma answered_append:
  "answered db h (a @ b) = (answered db h a \<and> answered db (h @ ops_of a) b)"
  by (induction db h a rule: answered.induct) simp_all

lemma keeps_exec: "keeps db (exec db c)"
  by (simp add: keeps_def exec_def Let_def answered_append split: sum.splits)

lemma keeps_say: "keeps db (say l)"
  by (simp add: keeps_def say_def answered_append)

lemma keeps_ret: "keeps db (ret x)"
  by (simp add: keeps_def ret_def)

lemma keeps_ignoring: "keeps db m \<Longrightarrow> keeps db (ignoring m)"
  by (simp add: keeps_def ignoring_def)

lemma keeps_seq: "keeps db m \<Longrightarrow> (\<And>x. keeps db (f x)) \<Longrightarrow> keeps db (seq m f)"
  unfolding keeps_def seq_def
proof (intro allI impI)
  fix tr
  assume m: "\<forall>tr. answered db [] tr \<longrightarrow> answered db [] (snd (m tr))"
    and f: "\<And>x. \<forall>tr. answered db [] tr \<longrightarrow> answered db [] (snd (f x tr))"
    and tr: "answered db [] tr"
  from m tr have "answered db [] (snd (m tr))" by simp
  with f show "answered db []
      (snd (case m tr of (Inl err, tr') \<Rightarrow> (Inl err, tr') | (Inr x, tr') \<Rightarrow> f x tr'))"
    by (cases "m tr") (auto split: sum.splits)
qed

lemma keeps_if: "keeps db m \<Longrightarrow> keeps db m' \<Longrightarrow> keeps db (if b then m else m')"
  by simp

lemma keeps_copyRows: "keeps db (copyRows db table rows n)"
  unfolding keeps_def
proof (intro allI impI)
  fix tr
  assume "answered db [] tr"
  then show "answered db [] (snd (copyRows db table rows n tr))"
  proof (induction rows arbitrary: n tr)
    case Nil
    then show ?case by simp
  next
    case (Cons rawRow rows)
    show ?case
    proof (cases "db (ops_of tr) (StmtExec (convertRow rawRow))")
      case (Inl e)
      with Cons.prems show ?thesis
        by (simp add: copyRows_Cons_err answered_append)
    next
      case (Inr x)
      have "answered db [] (tr @ okSteps n [rawRow])"
        using Cons.prems Inr by (simp add: answered_append)
      from Cons.IH [OF this] show ?thesis
        by (simp add: copyRows_Cons_ok [where db=db and tr=tr and rawRow=rawRow, OF Inr])
    qed
  qed
qed

lemma keeps_Upsert_run: "keeps db (Upsert_run db table idColumn columns rows query rq)"
  unfolding Upsert_run_def
  by (intro keeps_seq keeps_exec keeps_say keeps_ret keeps_ignoring keeps_if keeps_copyRows)

lemma Upsert_answered:
  assumes "Upsert eng db table idColumn columns rows hasRevisions = (res, tr)"
  shows "answered db [] tr"
proof (cases "buildQuery eng table (tempTable table) idColumn columns hasRevisions")
  case (fields query rq err)
  have "answered db [] (snd (Upsert_run db table idColumn columns rows query rq []))"
    using keeps_Upsert_run [of db table idColumn columns rows query rq]
    by (simp add: keeps_def)
  with assms fields show ?thesis
    by (cases err; cases "Upsert_run db table idColumn columns rows query rq []")
      (auto simp: Upsert_def split: sum.splits)
qed

lemma ops_of_staged: "ops_of (staged table columns rows) = stagingOps table columns rows"
  by (simp add: trace_defs stagingOps_def)

lemma index_refused_run:
  assumes "Upsert eng db table idColumn columns rows hasRevisions = (res, tr)"
    and "isl (db (stagingOps table columns rows) (DbExec (createIndexSQL table idColumn)))"
  shows "(\<exists>e. res = Some e) \<and>
         prefix (ops_of tr)
           (stagingOps table columns rows @ [DbExec (createIndexSQL table idColumn)]) \<and>
         prefix (statements tr)
           [TxnExec 0 (createTempSQL table), DbExec (createIndexSQL table idColumn)] \<and>
         executed_in 1 tr = []"
proof -
  note a = Upsert_answered [OF assms(1)]
  have no: "\<not> answered db [] (indexed table idColumn columns rows ra @ post)" for ra post
    using assms(2)
    by (auto simp: indexed_def answered_append ops_of_staged split: sum.splits)
  from assms(1) show ?thesis
  proof (cases rule: Upsert_cases)
    case (build e q r)
    then show ?thesis by simp
  next
    case (run query rq)
    from run(2) show ?thesis
    proof cases
      case (append_fails k e)
      then show ?thesis
        using prefix_take_map [of k rows "StmtExec \<circ> convertRow"]
        by (simp add: copied_def opened_def stagingOps_def)
    qed (use a no in \<open>auto simp: copied_def opened_def staged_def stagingOps_def\<close>)
  qed
qed

lemma idPos_nth:
  "idColumn \<in> set columns \<Longrightarrow>
     idPos idColumn columns < length columns \<and> columns ! idPos idColumn columns = idColumn"
  by (induction columns) (auto simp: idPos_def)

lemma index_failure_run:
  assumes "Upsert eng db table idColumn columns rows hasRevisions = (res, tr)"
    and "Call (DbExec (createIndexSQL table idColumn)) (Some e) \<in> set tr"
  shows "res = Some e \<and>
         tr = staged table columns rows @ [Call (DbExec (createIndexSQL table idColumn)) (Some e)] \<and>
         ops_of tr = stagingOps table columns rows @ [DbExec (createIndexSQL table idColumn)] \<and>
         statements tr = [TxnExec 0 (createTempSQL table), DbExec (createIndexSQL table idColumn)] \<and>
         executed_in 1 tr = []"
  using assms(1)
proof (cases rule: Upsert_cases)
  case (build e q r)
  with assms(2) show ?thesis by simp
next
  case (run query rq)
  from run(2) assms(2) show ?thesis
    by cases (auto simp: trace_defs stagingOps_def)
qed

lemma analyze_failure_run:
  assumes "Upsert eng db table idColumn columns rows hasRevisions = (res, tr)"
    and "Call (DbExec (analyzeSQL table)) (Some e) \<in> set tr"
  shows "(\<exists>r post. tr = indexed table idColumn columns rows (Some e) @ Call DbBegin r # post) \<and>
         (res = None \<longleftrightarrow> last tr = Log Done) \<and>
         (\<forall>e'. res = Some e' \<longrightarrow>
            (\<exists>c. last tr = Call c (Some e') \<and> c \<noteq> DbExec (analyzeSQL table)))"
  using assms(1)
proof (cases rule: Upsert_cases)
  case (build e q r)
  with assms(2) show ?thesis by simp
next
  case (run query rq)
  from run(2) assms(2) show ?thesis
    by cases (auto simp: trace_defs)
qed

subsection \<open>Concrete runs\<close>

lemmas run_defs =
  Upsert_def buildQuery_def Upsert_run_def seq_def exec_def say_def ret_def ignoring_def Let_def
  copyRows.simps(2) convertRow_def createTempSQL_def tempTable_def replacePeriods_def
  createIndexSQL_def analyzeSQL_def demoEngine_def okDb_def failsOn_def smod_int_alt_def

lemma demo_ok_run:
  "Upsert demoEngine okDb ''users'' ''id'' [''id'', ''name'']
     [[''1'', ''null''], [''2'', '''']] True =
   (None,
    [Log Starting, Call DbBegin None,
     Call (TxnExec 0 ''CREATE TEMP TABLE users_temp(LIKE users)'') None,
     Call (TxnPrepare 0 ''users_temp'' [''id'', ''name'']) None,
     Call (StmtExec [Some ''1'', Some ''null'']) None,
     Call (StmtExec [Some ''2'', None]) None,
     Call (StmtExec []) None, Call StmtClose None, Call (TxnCommit 0) None,
     Log (ProcessedTotal 2), Log CreatingIndex,
     Call (DbExec ''CREATE UNIQUE INDEX ON users_temp(id)'') None,
     Log Analyzing, Call (DbExec ''ANALYZE users_temp'') None,
     Call DbBegin None, Log CalculatingRevisions, Call (TxnExec 1 ''REVISE users'') None,
     Log (UpdatedRevision 0), Log PerformingUpsert, Call (TxnExec 1 ''MERGE users'') None,
     Log Committing, Call (TxnCommit 1) None, Log Done])"
  by (simp add: run_defs)


lemma demo_empty_run:
  "Upsert demoEngine okDb ''users'' ''id'' [''id'', ''name''] [] True =
   (None,
    [Log Starting, Call DbBegin None,
     Call (TxnExec 0 ''CREATE TEMP TABLE users_temp(LIKE users)'') None,
     Call (TxnPrepare 0 ''users_temp'' [''id'', ''name'']) None,
     Call (StmtExec []) None, Call StmtClose None, Call (TxnCommit 0) None,
     Log (ProcessedTotal 0), Log CreatingIndex,
     Call (DbExec ''CREATE UNIQUE INDEX ON users_temp(id)'') None,
     Log Analyzing, Call (DbExec ''ANALYZE users_temp'') None,
     Call DbBegin None, Log CalculatingRevisions, Call (TxnExec 1 ''REVISE users'') None,
     Log (UpdatedRevision 0), Log PerformingUpsert, Call (TxnExec 1 ''MERGE users'') None,
     Log Committing, Call (TxnCommit 1) None, Log Done])"
  by (simp add: run_defs)

lemma demo_append_run:
  "Upsert demoEngine (failsOn (StmtExec [Some ''2'', None]) (Error ''copy failed''))
     ''users'' ''id'' [''id'', ''name''] [[''1'', ''Alice''], [''2'', ''''], [''3'', ''Eve'']] True =
   (Some (Error ''copy failed''),
    [Log Starting, Call DbBegin None,
     Call (TxnExec 0 ''CREATE TEMP TABLE users_temp(LIKE users)'') None,
     Call (TxnPrepare 0 ''users_temp'' [''id'', ''name'']) None,
     Call (StmtExec [Some ''1'', Some ''Alice'']) None,
     Call (StmtExec [Some ''2'', None]) (Some (Error ''copy failed'')),
     Println ''users'' [Some ''2'', None]])"
  by (simp add: run_defs)

lemma demo_merge_run:
  "Upsert demoEngine (failsOn (TxnExec 1 ''MERGE users'') (Error ''merge failed''))
     ''users'' ''id'' [''id'', ''name''] [[''1'', ''Alice''], [''2'', '''']] True =
   (Some (Error ''merge failed''),
    [Log Starting, Call DbBegin None,
     Call (TxnExec 0 ''CREATE TEMP TABLE users_temp(LIKE users)'') None,
     Call (TxnPrepare 0 ''users_temp'' [''id'', ''name'']) None,
     Call (StmtExec [Some ''1'', Some ''Alice'']) None,
     Call (StmtExec [Some ''2'', None]) None,
     Call (StmtExec []) None, Call StmtClose None, Call (TxnCommit 0) None,
     Log (ProcessedTotal 2), Log CreatingIndex,
     Call (DbExec ''CREATE UNIQUE INDEX ON users_temp(id)'') None,
     Log Analyzing, Call (DbExec ''ANALYZE users_temp'') None,
     Call DbBegin None, Log CalculatingRevisions, Call (TxnExec 1 ''REVISE users'') None,
     Log (UpdatedRevision 0), Log PerformingUpsert,
     Call (TxnExec 1 ''MERGE users'') (Some (Error ''merge failed''))])"
  by (simp add: run_defs)

lemma demo_buildQuery:
  "buildQuery demoEngine ''users'' (tempTable ''users'') ''id'' [''id'', ''name''] True =
     (''MERGE users'', ''REVISE users'', None)"
  by (simp add: buildQuery_def demoEngine_def)

lemmas run0_defs =
  Upsert0_def buildQuery0_def Upsert0_run_def seq_def exec_def ret_def Let_def
  copyRows0.simps(2) convertRow_def createTempSQL0_def replacePeriods_def
  demoEngine0_def okDb_def failsOn_def

lemma demo0_ok_run:
  "Upsert0 demoEngine0 okDb ''users'' ''id'' [''id'', ''name'']
     [[''1'', ''null''], [''2'', '''']] =
   (None,
    [Call DbBegin None,
     Call (TxnExec 0 ''CREATE TEMP TABLE users_temp(LIKE users) ON COMMIT DROP;'') None,
     Call (TxnPrepare 0 ''users_temp'' [''id'', ''name'']) None,
     Call (StmtExec [Some ''1'', Some ''null'']) None,
     Call (StmtExec [Some ''2'', None]) None,
     Call (StmtExec []) None, Call (TxnExec 0 ''MERGE users'') None,
     Call (TxnCommit 0) None])"
  by (simp add: run0_defs)

lemma demo0_append_run:
  "Upsert0 demoEngine0 (failsOn (StmtExec [Some ''2'', None]) (Error ''copy failed''))
     ''users'' ''id'' [''id'', ''name''] [[''1'', ''Alice''], [''2'', ''''], [''3'', ''Eve'']] =
   (Some (Error ''copy failed''),
    [Call DbBegin None,
     Call (TxnExec 0 ''CREATE TEMP TABLE users_temp(LIKE users) ON COMMIT DROP;'') None,
     Call (TxnPrepare 0 ''users_temp'' [''id'', ''name'']) None,
     Call (StmtExec [Some ''1'', Some ''Alice'']) None,
     Call (StmtExec [Some ''2'', None]) (Some (Error ''copy failed'')),
     Println ''users'' [Some ''2'', None]])"
  by (simp add: run0_defs)

lemma demo_revision_run:
  "Upsert demoEngine (failsOn (TxnExec 1 ''REVISE users'') (Error ''revision failed''))
     ''users'' ''id'' [''id'', ''name''] [[''1'', ''Alice''], [''2'', '''']] True =
   (Some (Error ''revision failed''),
    [Log Starting, Call DbBegin None,
     Call (TxnExec 0 ''CREATE TEMP TABLE users_temp(LIKE users)'') None,
     Call (TxnPrepare 0 ''users_temp'' [''id'', ''name'']) None,
     Call (StmtExec [Some ''1'', Some ''Alice'']) None,
     Call (StmtExec [Some ''2'', None]) None,
     Call (StmtExec []) None, Call StmtClose None, Call (TxnCommit 0) None,
     Log (ProcessedTotal 2), Log CreatingIndex,
     Call (DbExec ''CREATE UNIQUE INDEX ON users_temp(id)'') None,
     Log Analyzing, Call (DbExec ''ANALYZE users_temp'') None,
     Call DbBegin None, Log CalculatingRevisions,
     Call (TxnExec 1 ''REVISE users'') (Some (Error ''revision failed''))])"
  by (simp add: run_defs)

lemma demo_unique_dup_run:
  "Upsert demoEngine (uniqueOn 0 ''CREATE UNIQUE INDEX ON users_temp(id)'')
     ''users'' ''id'' [''id'', ''name''] [[''1'', ''Alice''], [''1'', ''Bob'']] True =
   (Some (Error ''could not create unique index''),
    [Log Starting, Call DbBegin None,
     Call (TxnExec 0 ''CREATE TEMP TABLE users_temp(LIKE users)'') None,
     Call (TxnPrepare 0 ''users_temp'' [''id'', ''name'']) None,
     Call (StmtExec [Some ''1'', Some ''Alice'']) None,
     Call (StmtExec [Some ''1'', Some ''Bob'']) None,
     Call (StmtExec []) None, Call StmtClose None, Call (TxnCommit 0) None,
     Log (ProcessedTotal 2), Log CreatingIndex,
     Call (DbExec ''CREATE UNIQUE INDEX ON users_temp(id)'')
       (Some (Error ''could not create unique index''))])"
  by (simp add: run_defs uniqueOn_def)

lemma demo_unique_ok_run:
  "Upsert demoEngine (uniqueOn 0 ''CREATE UNIQUE INDEX ON users_temp(id)'')
     ''users'' ''id'' [''id'', ''name''] [[''1'', ''Alice''], [''2'', ''Bob'']] True =
   (None,
    [Log Starting, Call DbBegin None,
     Call (TxnExec 0 ''CREATE TEMP TABLE users_temp(LIKE users)'') None,
     Call (TxnPrepare 0 ''users_temp'' [''id'', ''name'']) None,
     Call (StmtExec [Some ''1'', Some ''Alice'']) None,
     Call (StmtExec [Some ''2'', Some ''Bob'']) None,
     Call (StmtExec []) None, Call StmtClose None, Call (TxnCommit 0) None,
     Log (ProcessedTotal 2), Log CreatingIndex,
     Call (DbExec ''CREATE UNIQUE INDEX ON users_temp(id)'') None,
     Log Analyzing, Call (DbExec ''ANALYZE users_temp'') None,
     Call DbBegin None, Log CalculatingRevisions, Call (TxnExec 1 ''REVISE users'') None,
     Log (UpdatedRevision 0), Log PerformingUpsert, Call (TxnExec 1 ''MERGE users'') None,
     Log Committing, Call (TxnCommit 1) None, Log Done])"
  by (simp add: run_defs uniqueOn_def)

lemma demo_unique_contract:
  "enforcesUnique (uniqueOn 0 ''CREATE UNIQUE INDEX ON users_temp(id)'')
     ''users'' ''id'' [''id'', ''name'']"
  by (simp add: enforcesUnique_def uniqueOn_def idPos_def createIndexSQL_def tempTable_def
      replacePeriods_def)

lemma demo_unique_staging:
  "accepts (uniqueOn 0 ''CREATE UNIQUE INDEX ON users_temp(id)'') []
     (stagingOps ''users'' [''id'', ''name''] [[''1'', ''Alice''], [''1'', ''Bob'']])"
  by (simp add: stagingOps_def uniqueOn_def)

section \<open>The claims\<close>

text \<open>
  C1. In every run of \<open>Upsert\<close>, in either revision of the file, the row given to the
  \<open>k\<close>-th \<open>stmt.Exec\<close> of the copy loop is the \<open>k\<close>-th record of the stream
  with the translation applied: it has the record's length, position \<open>i\<close> holds
  \<open>nil\<close> (SQL NULL) exactly when field \<open>i\<close> is the empty string, and every
  non-empty field, \<open>"null"\<close> included, is passed as itself.
\<close>

theorem null_translation:
  assumes "Upsert eng db table idColumn columns rows hasRevisions = (res, tr) \<or>
           Upsert0 eng0 db table idColumn columns rows = (res, tr)"
    and "k < length rows" and "k < length (appended tr)" and "i < length (rows ! k)"
  shows "fst (appended tr ! k) = convertRow (rows ! k) \<and>
         length (fst (appended tr ! k)) = length (rows ! k) \<and>
         (fst (appended tr ! k) ! i = None \<longleftrightarrow> rows ! k ! i = '''') \<and>
         (rows ! k ! i \<noteq> '''' \<longrightarrow> fst (appended tr ! k) ! i = Some (rows ! k ! i))"
proof -
  have "prefix (map fst (appended tr)) (map convertRow rows @ [[]])"
    using assms(1)
  proof
    assume "Upsert eng db table idColumn columns rows hasRevisions = (res, tr)"
    then show ?thesis
    proof (cases rule: Upsert_cases)
      case (build e q r)
      then show ?thesis by simp
    next
      case (run query rq)
      from run(2) show ?thesis by (rule appended_rows_prefix)
    qed
  next
    assume "Upsert0 eng0 db table idColumn columns rows = (res, tr)"
    then show ?thesis
    proof (cases rule: Upsert0_cases)
      case (build e q)
      then show ?thesis by simp
    next
      case (run query)
      from run(2) show ?thesis by (rule appended_rows_prefix0)
    qed
  qed
  then have "map fst (appended tr) ! k = (map convertRow rows @ [[]]) ! k"
    by (rule prefix_nth) (use assms(3) in simp)
  then have "fst (appended tr ! k) = convertRow (rows ! k)"
    using assms(2,3) by (simp add: nth_append)
  then show ?thesis
    using convertRow_nth [OF assms(4)] by (simp add: convertRow_def)
qed

theorem null_translation_witness:
  "(1::nat) < length [[''1'', ''null''], [''2'', '''']] \<and>
   fst (appended (snd (Upsert demoEngine okDb ''users'' ''id'' [''id'', ''name'']
     [[''1'', ''null''], [''2'', '''']] True)) ! 1) = [Some ''2'', None] \<and>
   fst (appended (snd (Upsert demoEngine okDb ''users'' ''id'' [''id'', ''name'']
     [[''1'', ''null''], [''2'', '''']] True)) ! 0) ! 1 = Some ''null'' \<and>
   fst (appended (snd (Upsert0 demoEngine0 okDb ''users'' ''id'' [''id'', ''name'']
     [[''1'', ''null''], [''2'', '''']])) ! 1) = [Some ''2'', None]"
  using null_translation [OF disjI1 [OF demo_ok_run], where k = 1 and i = 1]
    null_translation [OF disjI1 [OF demo_ok_run], where k = 0 and i = 1]
    null_translation [OF disjI2 [OF demo0_ok_run], where k = 1 and i = 1]
  unfolding demo_ok_run demo0_ok_run fst_conv snd_conv
  by (simp add: convertRow_def)

text \<open>
  C2 (as amended). \<open>Upsert\<close> compares no identifiers: a duplicate surfaces only as the
  answer of the database to the unique index on the staging table, and a record with an
  empty identifier is staged with \<open>NULL\<close> there. For every stream with two records of
  the same non-empty identifier, on a database that refuses a unique index over rows
  sharing an identifier: \<open>Upsert\<close> returns an error; its calls are an initial part of
  the staging calls followed by the index creation; the statements it sends are at most
  the creation of the staging table and of its index, so neither the revision nor the
  merge statement is executed and nothing is executed on the merge transaction; and when
  the templates render and the database accepts the staging calls, the error is the
  answer to the index creation, which is the last thing the run does. Whatever the
  stream, a refused index creation ends the run in this way. The staging table is never
  the target. On a database that accepts the index, and for two records whose identifier
  is empty, the run goes on to merge the duplicates.
\<close>

theorem duplicate_identifier_aborts:
  assumes "Upsert eng db table idColumn columns rows hasRevisions = (res, tr)"
  shows "(dupIds [] (idPos idColumn columns) rows \<and>
          enforcesUnique db table idColumn columns \<longrightarrow>
            (\<exists>e. res = Some e) \<and>
            prefix (ops_of tr)
              (stagingOps table columns rows @ [DbExec (createIndexSQL table idColumn)]) \<and>
            prefix (statements tr)
              [TxnExec 0 (createTempSQL table), DbExec (createIndexSQL table idColumn)] \<and>
            executed_in 1 tr = [] \<and>
            (accepts db [] (stagingOps table columns rows) \<and>
             snd (snd (buildQuery eng table (tempTable table) idColumn columns hasRevisions))
               = None \<longrightarrow>
               (\<exists>e. db (stagingOps table columns rows)
                        (DbExec (createIndexSQL table idColumn)) = Inl e \<and>
                    res = Some e \<and>
                    tr = staged table columns rows @
                         [Call (DbExec (createIndexSQL table idColumn)) (Some e)]))) \<and>
         (\<forall>e. Call (DbExec (createIndexSQL table idColumn)) (Some e) \<in> set tr \<longrightarrow>
            res = Some e \<and>
            tr = staged table columns rows @
                 [Call (DbExec (createIndexSQL table idColumn)) (Some e)] \<and>
            ops_of tr = stagingOps table columns rows @ [DbExec (createIndexSQL table idColumn)] \<and>
            statements tr =
              [TxnExec 0 (createTempSQL table), DbExec (createIndexSQL table idColumn)] \<and>
            executed_in 1 tr = []) \<and>
         (idColumn \<in> set columns \<longrightarrow>
            idPos idColumn columns < length columns \<and>
            columns ! idPos idColumn columns = idColumn) \<and>
         tempTable table \<noteq> table \<and>
         createTempSQL table =
           ''CREATE TEMP TABLE '' @ replacePeriods table @ ''_temp(LIKE '' @ table @ '')'' \<and>
         createIndexSQL table idColumn =
           ''CREATE UNIQUE INDEX ON '' @ replacePeriods table @ ''_temp('' @ idColumn @ '')''"
proof -
  let ?idx = "DbExec (createIndexSQL table idColumn)"
  have dup: "(\<exists>e. res = Some e) \<and>
            prefix (ops_of tr) (stagingOps table columns rows @ [?idx]) \<and>
            prefix (statements tr) [TxnExec 0 (createTempSQL table), ?idx] \<and>
            executed_in 1 tr = [] \<and>
            (accepts db [] (stagingOps table columns rows) \<and>
             snd (snd (buildQuery eng table (tempTable table) idColumn columns hasRevisions))
               = None \<longrightarrow>
               (\<exists>e. db (stagingOps table columns rows) ?idx = Inl e \<and> res = Some e \<and>
                    tr = staged table columns rows @ [Call ?idx (Some e)]))"
    if d: "dupIds [] (idPos idColumn columns) rows"
      and u: "enforcesUnique db table idColumn columns"
  proof -
    from d have "dupIds None (idPos idColumn columns)
        (appendedRows (stagingOps table columns rows))"
      by (simp add: stagingOps_def dupIds_appendI dupIds_convertRow)
    with u have refused: "isl (db (stagingOps table columns rows) ?idx)"
      by (simp add: enforcesUnique_def)
    then obtain e where e: "db (stagingOps table columns rows) ?idx = Inl e"
      by (cases "db (stagingOps table columns rows) ?idx") auto
    have "res = Some e \<and> tr = staged table columns rows @ [Call ?idx (Some e)]"
      if acc: "accepts db [] (stagingOps table columns rows)"
        and b: "snd (snd (buildQuery eng table (tempTable table) idColumn columns hasRevisions))
            = None"
    proof -
      obtain query rq where
        "buildQuery eng table (tempTable table) idColumn columns hasRevisions = (query, rq, None)"
        using b
        by (cases "buildQuery eng table (tempTable table) idColumn columns hasRevisions") auto
      with assms Upsert_run_index_rejected [OF acc e, of query rq] show ?thesis
        by (auto simp: Upsert_def)
    qed
    with e index_refused_run [OF assms refused] show ?thesis
      by blast
  qed
  have idx: "res = Some e \<and>
            tr = staged table columns rows @ [Call ?idx (Some e)] \<and>
            ops_of tr = stagingOps table columns rows @ [?idx] \<and>
            statements tr = [TxnExec 0 (createTempSQL table), ?idx] \<and>
            executed_in 1 tr = []"
    if "Call ?idx (Some e) \<in> set tr" for e
    using index_failure_run [OF assms that] .
  have texts: "createTempSQL table =
       ''CREATE TEMP TABLE '' @ replacePeriods table @ ''_temp(LIKE '' @ table @ '')''"
    "createIndexSQL table idColumn =
       ''CREATE UNIQUE INDEX ON '' @ replacePeriods table @ ''_temp('' @ idColumn @ '')''"
    by (simp_all add: createTempSQL_def createIndexSQL_def tempTable_text)
  from dup idx texts idPos_nth [of idColumn columns] tempTable_differs [of table] show ?thesis
    by blast
qed

theorem duplicate_identifier_aborts_witness:
  "dupIds [] (idPos ''id'' [''id'', ''name'']) [[''1'', ''Alice''], [''1'', ''Bob'']] \<and>
   enforcesUnique (uniqueOn 0 ''CREATE UNIQUE INDEX ON users_temp(id)'')
     ''users'' ''id'' [''id'', ''name''] \<and>
   accepts (uniqueOn 0 ''CREATE UNIQUE INDEX ON users_temp(id)'') []
     (stagingOps ''users'' [''id'', ''name''] [[''1'', ''Alice''], [''1'', ''Bob'']]) \<and>
   snd (snd (buildQuery demoEngine ''users'' (tempTable ''users'') ''id''
     [''id'', ''name''] True)) = None \<and>
   Call (DbExec ''CREATE UNIQUE INDEX ON users_temp(id)'')
        (Some (Error ''could not create unique index''))
     \<in> set (snd (Upsert demoEngine (uniqueOn 0 ''CREATE UNIQUE INDEX ON users_temp(id)'')
          ''users'' ''id'' [''id'', ''name''] [[''1'', ''Alice''], [''1'', ''Bob'']] True)) \<and>
   ''id'' \<in> set [''id'', ''name''] \<and>
   fst (Upsert demoEngine (uniqueOn 0 ''CREATE UNIQUE INDEX ON users_temp(id)'')
     ''users'' ''id'' [''id'', ''name''] [[''1'', ''Alice''], [''1'', ''Bob'']] True) =
     Some (Error ''could not create unique index'') \<and>
   statements (snd (Upsert demoEngine (uniqueOn 0 ''CREATE UNIQUE INDEX ON users_temp(id)'')
     ''users'' ''id'' [''id'', ''name''] [[''1'', ''Alice''], [''1'', ''Bob'']] True)) =
     [TxnExec 0 ''CREATE TEMP TABLE users_temp(LIKE users)'',
      DbExec ''CREATE UNIQUE INDEX ON users_temp(id)''] \<and>
   executed_in 1 (snd (Upsert demoEngine (uniqueOn 0 ''CREATE UNIQUE INDEX ON users_temp(id)'')
     ''users'' ''id'' [''id'', ''name''] [[''1'', ''Alice''], [''1'', ''Bob'']] True)) = [] \<and>
   fst (Upsert demoEngine (uniqueOn 0 ''CREATE UNIQUE INDEX ON users_temp(id)'')
     ''users'' ''id'' [''id'', ''name''] [[''1'', ''Alice''], [''2'', ''Bob'']] True) = None"
proof -
  have d: "dupIds [] (idPos ''id'' [''id'', ''name'']) [[''1'', ''Alice''], [''1'', ''Bob'']]"
    by (simp add: idPos_def)
  from duplicate_identifier_aborts [OF surjective_pairing [of "Upsert demoEngine
      (uniqueOn 0 ''CREATE UNIQUE INDEX ON users_temp(id)'') ''users'' ''id''
      [''id'', ''name''] [[''1'', ''Alice''], [''1'', ''Bob'']] True"]]
    d demo_unique_contract
  have "executed_in 1 (snd (Upsert demoEngine
          (uniqueOn 0 ''CREATE UNIQUE INDEX ON users_temp(id)'')
          ''users'' ''id'' [''id'', ''name''] [[''1'', ''Alice''], [''1'', ''Bob'']] True)) = []"
    by blast
  moreover have "snd (snd (buildQuery demoEngine ''users'' (tempTable ''users'') ''id''
      [''id'', ''name''] True)) = None"
    by (simp add: buildQuery_def demoEngine_def)
  ultimately show ?thesis
    using d demo_unique_contract demo_unique_staging
    by (simp add: demo_unique_dup_run demo_unique_ok_run idPos_def)
qed

theorem duplicate_identifier_merged_counterexample:
  "dupIds [] (idPos ''id'' [''id'', ''name'']) [[''1'', ''Alice''], [''1'', ''Bob'']] \<and>
   Upsert demoEngine okDb ''users'' ''id'' [''id'', ''name'']
     [[''1'', ''Alice''], [''1'', ''Bob'']] True =
   (None,
    [Log Starting, Call DbBegin None,
     Call (TxnExec 0 ''CREATE TEMP TABLE users_temp(LIKE users)'') None,
     Call (TxnPrepare 0 ''users_temp'' [''id'', ''name'']) None,
     Call (StmtExec [Some ''1'', Some ''Alice'']) None,
     Call (StmtExec [Some ''1'', Some ''Bob'']) None,
     Call (StmtExec []) None, Call StmtClose None, Call (TxnCommit 0) None,
     Log (ProcessedTotal 2), Log CreatingIndex,
     Call (DbExec ''CREATE UNIQUE INDEX ON users_temp(id)'') None,
     Log Analyzing, Call (DbExec ''ANALYZE users_temp'') None,
     Call DbBegin None, Log CalculatingRevisions, Call (TxnExec 1 ''REVISE users'') None,
     Log (UpdatedRevision 0), Log PerformingUpsert, Call (TxnExec 1 ''MERGE users'') None,
     Log Committing, Call (TxnCommit 1) None, Log Done]) \<and>
   Upsert demoEngine (uniqueOn 0 ''CREATE UNIQUE INDEX ON users_temp(id)'') ''users'' ''id''
     [''id'', ''name''] [['''', ''Alice''], ['''', ''Bob'']] True =
   (None,
    [Log Starting, Call DbBegin None,
     Call (TxnExec 0 ''CREATE TEMP TABLE users_temp(LIKE users)'') None,
     Call (TxnPrepare 0 ''users_temp'' [''id'', ''name'']) None,
     Call (StmtExec [None, Some ''Alice'']) None,
     Call (StmtExec [None, Some ''Bob'']) None,
     Call (StmtExec []) None, Call StmtClose None, Call (TxnCommit 0) None,
     Log (ProcessedTotal 2), Log CreatingIndex,
     Call (DbExec ''CREATE UNIQUE INDEX ON users_temp(id)'') None,
     Log Analyzing, Call (DbExec ''ANALYZE users_temp'') None,
     Call DbBegin None, Log CalculatingRevisions, Call (TxnExec 1 ''REVISE users'') None,
     Log (UpdatedRevision 0), Log PerformingUpsert, Call (TxnExec 1 ''MERGE users'') None,
     Log Committing, Call (TxnCommit 1) None, Log Done]) \<and>
   Upsert demoEngine (failsOn DbBegin (Error ''connection refused'')) ''users'' ''id''
     [''id'', ''name''] [[''1'', ''Alice''], [''1'', ''Bob'']] True =
   (Some (Error ''connection refused''),
    [Log Starting, Call DbBegin (Some (Error ''connection refused''))])"
  by (simp add: run_defs idPos_def uniqueOn_def)

text \<open>
  C3 (as amended). The staging name is a function of the target name, but not an injective
  one: two target names get the same staging name exactly when they are equal after every
  \<open>.\<close> is replaced with \<open>_\<close>; on names without \<open>_\<close> the derivation is injective.
  The claim as stated fails on \<open>public.users\<close> and \<open>public_users\<close>.
\<close>

theorem tempTable_eq_iff:
  "(tempTable t1 = tempTable t2 \<longleftrightarrow> replacePeriods t1 = replacePeriods t2) \<and>
   (CHR ''_'' \<notin> set t1 \<and> CHR ''_'' \<notin> set t2 \<and> tempTable t1 = tempTable t2 \<longrightarrow> t1 = t2)"
proof -
  have "t1 = t2"
    if "CHR ''_'' \<notin> set t1" and "CHR ''_'' \<notin> set t2" and "replacePeriods t1 = replacePeriods t2"
  proof -
    have "inj_on (\<lambda>c. if c = CHR ''.'' then CHR ''_'' else c) (set t1 \<union> set t2)"
      using that(1,2) by (auto simp: inj_on_def split: if_splits)
    then show ?thesis
      using that(3) by (simp add: replacePeriods_def inj_on_map_eq_map)
  qed
  then show ?thesis by (auto simp: tempTable_def)
qed

theorem tempTable_eq_iff_witness:
  "tempTable ''public.users'' = ''public_users_temp'' \<and>
   (tempTable ''a.b'' = tempTable ''a_b'') \<and>
   CHR ''_'' \<notin> set ''public.users'' \<and> CHR ''_'' \<notin> set ''public.user'' \<and>
   tempTable ''public.users'' \<noteq> tempTable ''public.user''"
  using tempTable_eq_iff [of "''public.users''" "''public.user''"]
    tempTable_eq_iff [of "''a.b''" "''a_b''"]
  by (simp add: tempTable_def replacePeriods_def)

theorem tempTable_collision_counterexample:
  "''public.users'' \<noteq> ''public_users'' \<and> tempTable ''public.users'' = tempTable ''public_users''"
  by (simp add: tempTable_def replacePeriods_def)



text \<open>
  C5. When the revision statement is not empty, the statements a run sends to the
  database, on either transaction or on the pool, are in order an initial part of: the
  creation of the staging table, of its index, the ANALYZE, the revision statement, the
  upsert statement; and all its calls are an initial part of the calls of a complete run.
  So in no run is the upsert statement executed before the revision statement.
\<close>

theorem revision_before_merge:
  assumes "Upsert eng db table idColumn columns rows hasRevisions = (res, tr)"
    and "buildQuery eng table (tempTable table) idColumn columns hasRevisions = (query, rq, err)"
    and "rq \<noteq> ''''"
  shows "prefix (statements tr)
           [TxnExec 0 (createTempSQL table), DbExec (createIndexSQL table idColumn),
            DbExec (analyzeSQL table), TxnExec 1 rq, TxnExec 1 query] \<and>
         prefix (ops_of tr)
           ([DbBegin, TxnExec 0 (createTempSQL table), TxnPrepare 0 (tempTable table) columns] @
            map (StmtExec \<circ> convertRow) rows @
            [StmtExec [], StmtClose, TxnCommit 0, DbExec (createIndexSQL table idColumn),
             DbExec (analyzeSQL table), DbBegin, TxnExec 1 rq, TxnExec 1 query, TxnCommit 1]) \<and>
         prefix (executed_in 1 tr) [rq, query] \<and>
         createTempSQL table =
           ''CREATE TEMP TABLE '' @ replacePeriods table @ ''_temp(LIKE '' @ table @ '')'' \<and>
         createIndexSQL table idColumn =
           ''CREATE UNIQUE INDEX ON '' @ replacePeriods table @ ''_temp('' @ idColumn @ '')'' \<and>
         analyzeSQL table = ''ANALYZE '' @ replacePeriods table @ ''_temp''"
  using assms(1)
proof (cases rule: Upsert_cases)
  case (build e q r)
  then show ?thesis
    by (simp add: createTempSQL_def createIndexSQL_def analyzeSQL_def tempTable_def)
next
  case (run query' rq')
  with assms(2) have eq: "query' = query" "rq' = rq" by simp_all
  have "prefix (executed_in 1 tr) [rq, query]"
    using run(2) assms(3) unfolding eq by cases (auto simp: trace_defs)
  moreover have "prefix (statements tr)
           [TxnExec 0 (createTempSQL table), DbExec (createIndexSQL table idColumn),
            DbExec (analyzeSQL table), TxnExec 1 rq, TxnExec 1 query]"
    using run_statements_prefix [OF run(2) [unfolded eq] assms(3)] .
  moreover have "prefix (ops_of tr) (fullPlan table idColumn columns rows query rq)"
    using run_ops_prefix [OF run(2) [unfolded eq]] .
  ultimately show ?thesis
    using assms(3)
    by (simp add: fullPlan_def createTempSQL_def createIndexSQL_def analyzeSQL_def tempTable_def)
qed

theorem revision_before_merge_witness:
  "''REVISE users'' \<noteq> '''' \<and>
   prefix (executed_in 1 (snd (Upsert demoEngine okDb ''users'' ''id'' [''id'', ''name'']
     [[''1'', ''null''], [''2'', '''']] True))) [''REVISE users'', ''MERGE users''] \<and>
   executed_in 1 (snd (Upsert demoEngine okDb ''users'' ''id'' [''id'', ''name'']
     [[''1'', ''null''], [''2'', '''']] True)) = [''REVISE users'', ''MERGE users''] \<and>
   statements (snd (Upsert demoEngine okDb ''users'' ''id'' [''id'', ''name'']
     [[''1'', ''null''], [''2'', '''']] True)) =
     [TxnExec 0 ''CREATE TEMP TABLE users_temp(LIKE users)'',
      DbExec ''CREATE UNIQUE INDEX ON users_temp(id)'', DbExec ''ANALYZE users_temp'',
      TxnExec 1 ''REVISE users'', TxnExec 1 ''MERGE users'']"
  using revision_before_merge [OF demo_ok_run demo_buildQuery]
  unfolding demo_ok_run fst_conv snd_conv
  by simp

text \<open>
  C6. When the execution of a statement in the merge transaction (the revision statement or
  the upsert statement) fails, \<open>Upsert\<close> returns that error at once and the merge
  transaction is never committed. (The code asks for no rollback either; it abandons the
  transaction.)
\<close>

theorem merge_failure_commits_nothing:
  assumes "Upsert eng db table idColumn columns rows hasRevisions = (res, tr)"
    and "Call (TxnExec 1 q) (Some e) \<in> set tr"
  shows "res = Some e \<and> last tr = Call (TxnExec 1 q) (Some e) \<and>
         (\<forall>r. Call (TxnCommit 1) r \<notin> set tr)"
  using assms(1)
proof (cases rule: Upsert_cases)
  case (build e q r)
  with assms(2) show ?thesis by simp
next
  case (run query rq)
  from run(2) assms(2) show ?thesis
    by cases (auto simp: trace_defs)
qed

theorem merge_failure_commits_nothing_witness:
  "Call (TxnExec 1 ''MERGE users'') (Some (Error ''merge failed''))
     \<in> set (snd (Upsert demoEngine (failsOn (TxnExec 1 ''MERGE users'') (Error ''merge failed''))
          ''users'' ''id'' [''id'', ''name''] [[''1'', ''Alice''], [''2'', '''']] True)) \<and>
   fst (Upsert demoEngine (failsOn (TxnExec 1 ''MERGE users'') (Error ''merge failed''))
          ''users'' ''id'' [''id'', ''name''] [[''1'', ''Alice''], [''2'', '''']] True) =
     Some (Error ''merge failed'') \<and>
   (\<forall>r. Call (TxnCommit 1) r
     \<notin> set (snd (Upsert demoEngine (failsOn (TxnExec 1 ''MERGE users'') (Error ''merge failed''))
          ''users'' ''id'' [''id'', ''name''] [[''1'', ''Alice''], [''2'', '''']] True))) \<and>
   Call (TxnExec 1 ''REVISE users'') (Some (Error ''revision failed''))
     \<in> set (snd (Upsert demoEngine
          (failsOn (TxnExec 1 ''REVISE users'') (Error ''revision failed''))
          ''users'' ''id'' [''id'', ''name''] [[''1'', ''Alice''], [''2'', '''']] True)) \<and>
   fst (Upsert demoEngine (failsOn (TxnExec 1 ''REVISE users'') (Error ''revision failed''))
          ''users'' ''id'' [''id'', ''name''] [[''1'', ''Alice''], [''2'', '''']] True) =
     Some (Error ''revision failed'') \<and>
   executed_in 1 (snd (Upsert demoEngine
          (failsOn (TxnExec 1 ''REVISE users'') (Error ''revision failed''))
          ''users'' ''id'' [''id'', ''name''] [[''1'', ''Alice''], [''2'', '''']] True)) =
     [''REVISE users'']"
  using merge_failure_commits_nothing [OF demo_merge_run,
      where q = "''MERGE users''" and e = "Error ''merge failed''"]
    merge_failure_commits_nothing [OF demo_revision_run,
      where q = "''REVISE users''" and e = "Error ''revision failed''"]
  unfolding demo_merge_run demo_revision_run fst_conv snd_conv
  by simp

text \<open>
  C7 (as amended). When the append of the \<open>k\<close>-th record fails, in either revision of
  the file, the \<open>k\<close> records before it were appended, \<open>Upsert\<close> prints the target
  table name and the row's values to standard output and returns the error the database
  answered, unchanged: the returned error carries no context of its own. Nothing follows
  the print: no further row is appended and no transaction is committed (nor is a rollback
  requested).
\<close>

theorem append_failure:
  assumes "Upsert eng db table idColumn columns rows hasRevisions = (res, tr) \<or>
           Upsert0 eng0 db table idColumn columns rows = (res, tr)"
    and "k < length rows" and "k < length (appended tr)" and "snd (appended tr ! k) = Some e"
  shows "res = Some e \<and>
         (\<exists>pre. tr = pre @ [Call (StmtExec (convertRow (rows ! k))) (Some e),
                            Println table (convertRow (rows ! k))] \<and>
                db (ops_of pre) (StmtExec (convertRow (rows ! k))) = Inl e \<and>
                appended pre = map (\<lambda>rawRow. (convertRow rawRow, None)) (take k rows)) \<and>
         length (appended tr) = Suc k \<and>
         (\<forall>j r. Call (TxnCommit j) r \<notin> set tr)"
  using assms(1)
proof
  assume "Upsert eng db table idColumn columns rows hasRevisions = (res, tr)"
  then show ?thesis
  proof (cases rule: Upsert_cases)
    case (build e q r)
    with assms(3) show ?thesis by simp
  next
    case (run query rq)
    from append_failure_new [OF run(2) assms(2-4)] assms(2) show ?thesis
      by (auto intro!: exI [of _ "copied table columns (take k rows)"])
  qed
next
  assume "Upsert0 eng0 db table idColumn columns rows = (res, tr)"
  then show ?thesis
  proof (cases rule: Upsert0_cases)
    case (build e q)
    with assms(3) show ?thesis by simp
  next
    case (run query)
    from append_failure_old [OF run(2) assms(2-4)] assms(2) show ?thesis
      by (auto intro!: exI [of _ "copied0 table columns (take k rows)"])
  qed
qed

theorem append_failure_witness:
  "snd (appended (snd (Upsert demoEngine
          (failsOn (StmtExec [Some ''2'', None]) (Error ''copy failed''))
          ''users'' ''id'' [''id'', ''name'']
          [[''1'', ''Alice''], [''2'', ''''], [''3'', ''Eve'']] True)) ! 1) =
     Some (Error ''copy failed'') \<and>
   fst (Upsert demoEngine (failsOn (StmtExec [Some ''2'', None]) (Error ''copy failed''))
          ''users'' ''id'' [''id'', ''name'']
          [[''1'', ''Alice''], [''2'', ''''], [''3'', ''Eve'']] True) =
     Some (Error ''copy failed'') \<and>
   length (appended (snd (Upsert demoEngine
          (failsOn (StmtExec [Some ''2'', None]) (Error ''copy failed''))
          ''users'' ''id'' [''id'', ''name'']
          [[''1'', ''Alice''], [''2'', ''''], [''3'', ''Eve'']] True))) = 2 \<and>
   (\<forall>j r. Call (TxnCommit j) r \<notin> set (snd (Upsert demoEngine
          (failsOn (StmtExec [Some ''2'', None]) (Error ''copy failed''))
          ''users'' ''id'' [''id'', ''name'']
          [[''1'', ''Alice''], [''2'', ''''], [''3'', ''Eve'']] True))) \<and>
   fst (Upsert0 demoEngine0 (failsOn (StmtExec [Some ''2'', None]) (Error ''copy failed''))
          ''users'' ''id'' [''id'', ''name'']
          [[''1'', ''Alice''], [''2'', ''''], [''3'', ''Eve'']]) =
     Some (Error ''copy failed'')"
  using append_failure [OF disjI1 [OF demo_append_run],
      where k = 1 and e = "Error ''copy failed''"]
    append_failure [OF disjI2 [OF demo0_append_run],
      where k = 1 and e = "Error ''copy failed''"]
  unfolding demo_append_run demo0_append_run fst_conv snd_conv
  by simp

theorem append_error_is_bare_counterexample:
  "Upsert demoEngine (failsOn (StmtExec [Some ''2'', None]) (Error ''copy failed''))
     ''users'' ''id'' [''id'', ''name''] [[''1'', ''Alice''], [''2'', ''''], [''3'', ''Eve'']] True =
   (Some (Error ''copy failed''),
    [Log Starting, Call DbBegin None,
     Call (TxnExec 0 ''CREATE TEMP TABLE users_temp(LIKE users)'') None,
     Call (TxnPrepare 0 ''users_temp'' [''id'', ''name'']) None,
     Call (StmtExec [Some ''1'', Some ''Alice'']) None,
     Call (StmtExec [Some ''2'', None]) (Some (Error ''copy failed'')),
     Println ''users'' [Some ''2'', None]]) \<and>
   fst (Upsert demoEngine (failsOn (StmtExec [Some ''7'', None]) (Error ''copy failed''))
     ''orders'' ''id'' [''id'', ''name''] [[''7'', '''']] True) = Some (Error ''copy failed'')"
  by (simp add: run_defs)

text \<open>
  C8. Here the code departs from the claim. The error of ANALYZE is assigned to \<open>err\<close>
  and overwritten by the next \<open>db.Begin()\<close> before anything reads it, where every
  other call is followed by a check: the failure is lost, not logged. On the run below
  ANALYZE fails; the run goes on to the merge transaction and returns \<open>nil\<close>, and its log
  lines are those of the run in which ANALYZE succeeds: none reports the failure.
\<close>

theorem analyze_failure_not_logged:
  "Upsert demoEngine (failsOn (DbExec ''ANALYZE users_temp'') (Error ''analyze failed''))
     ''users'' ''id'' [''id'', ''name''] [[''1'', ''Alice''], [''2'', '''']] True =
   (None,
    [Log Starting, Call DbBegin None,
     Call (TxnExec 0 ''CREATE TEMP TABLE users_temp(LIKE users)'') None,
     Call (TxnPrepare 0 ''users_temp'' [''id'', ''name'']) None,
     Call (StmtExec [Some ''1'', Some ''Alice'']) None,
     Call (StmtExec [Some ''2'', None]) None,
     Call (StmtExec []) None, Call StmtClose None, Call (TxnCommit 0) None,
     Log (ProcessedTotal 2), Log CreatingIndex,
     Call (DbExec ''CREATE UNIQUE INDEX ON users_temp(id)'') None,
     Log Analyzing, Call (DbExec ''ANALYZE users_temp'') (Some (Error ''analyze failed'')),
     Call DbBegin None, Log CalculatingRevisions, Call (TxnExec 1 ''REVISE users'') None,
     Log (UpdatedRevision 0), Log PerformingUpsert, Call (TxnExec 1 ''MERGE users'') None,
     Log Committing, Call (TxnCommit 1) None, Log Done]) \<and>
   loglines (snd (Upsert demoEngine
          (failsOn (DbExec ''ANALYZE users_temp'') (Error ''analyze failed''))
          ''users'' ''id'' [''id'', ''name''] [[''1'', ''Alice''], [''2'', '''']] True)) =
   loglines (snd (Upsert demoEngine okDb
          ''users'' ''id'' [''id'', ''name''] [[''1'', ''Alice''], [''2'', '''']] True))"
  by (simp add: run_defs)

text \<open>
  C9. For a stream of fewer than \<open>2^63\<close> records (so that the 64-bit counter does not
  wrap): the progress lines of a run are exactly the counts \<open>100000, 200000, ...\<close> up to
  the number of accepted rows, in order; the total that is logged is the number of records
  of the stream, all of them accepted; the loop adds one to the counter for each accepted
  row; the calls the loop makes and the error it returns do not depend on the counter; and
  on an empty stream, with templates that render and a database that accepts every call,
  \<open>Upsert\<close> returns \<open>nil\<close> and logs a total of 0.
\<close>

theorem processed_row_counter:
  assumes "Upsert eng db table idColumn columns rows hasRevisions = (res, tr)"
    and "length rows < 2 ^ 63"
  shows "progress tr = map of_nat (filter (\<lambda>i. 100000 dvd i) [1..<Suc (accepted rows tr)]) \<and>
         (\<forall>m. Log (ProcessedTotal m) \<in> set tr \<longrightarrow>
            accepted rows tr = length rows \<and> m = of_nat (length rows) \<and>
            sint m = int (length rows)) \<and>
         (\<forall>n m tr0 tr1. copyRows db table rows n tr0 = (Inr m, tr1) \<longrightarrow>
            m = n + of_nat (length rows)) \<and>
         (\<forall>n n' tr0.
            ops_of (snd (copyRows db table rows n tr0)) =
              ops_of (snd (copyRows db table rows n' tr0)) \<and>
            map_sum id (\<lambda>_. ()) (fst (copyRows db table rows n tr0)) =
              map_sum id (\<lambda>_. ()) (fst (copyRows db table rows n' tr0))) \<and>
         (rows = [] \<and> healthy db \<and>
          snd (snd (buildQuery eng table (tempTable table) idColumn columns hasRevisions)) = None
            \<longrightarrow> res = None \<and> Log (ProcessedTotal 0) \<in> set tr \<and> progress tr = [])"
proof (intro conjI allI impI)
  show "progress tr = map of_nat (filter (\<lambda>i. 100000 dvd i) [1..<Suc (accepted rows tr)])"
    using assms(1)
  proof (cases rule: Upsert_cases)
    case (build e q r)
    then show ?thesis by (simp add: accepted_def)
  next
    case (run query rq)
    from run(2) show ?thesis
    proof cases
      case (append_fails k e)
      have "accepted rows tr = k"
        using append_fails by (simp add: accepted_def trace_defs comp_def)
      moreover have "length (take k rows) < 2 ^ 63" using assms(2) by simp
      ultimately show ?thesis
        using append_fails progress_okSteps_0 [of "take k rows"]
        by (simp add: trace_defs del: upt_Suc)
    qed (use assms(2) in \<open>simp_all add: trace_defs accepted_def comp_def progress_okSteps_0 del: upt_Suc\<close>)
  qed
next
  fix m
  assume m: "Log (ProcessedTotal m) \<in> set tr"
  from assms(1) have "accepted rows tr = length rows \<and> m = of_nat (length rows)"
  proof (cases rule: Upsert_cases)
    case (build e q r)
    with m show ?thesis by simp
  next
    case (run query rq)
    from run(2) m show ?thesis
      by cases (auto simp: trace_defs accepted_def comp_def dest: Log_in_okSteps)
  qed
  then show "accepted rows tr = length rows" and "m = of_nat (length rows)"
    and "sint m = int (length rows)"
    using assms(2) by (simp_all add: sint_of_nat_small)
next
  fix n m tr0 tr1
  assume "copyRows db table rows n tr0 = (Inr m, tr1)"
  from copyRows_cases [OF this] show "m = n + of_nat (length rows)" by auto
next
  fix n n' tr0
  show "ops_of (snd (copyRows db table rows n tr0)) =
              ops_of (snd (copyRows db table rows n' tr0))"
    and "map_sum id (\<lambda>_. ()) (fst (copyRows db table rows n tr0)) =
              map_sum id (\<lambda>_. ()) (fst (copyRows db table rows n' tr0))"
    using copyRows_counter_free [of tr0 tr0 db table rows n n'] by simp_all
next
  assume a: "rows = [] \<and> healthy db \<and>
    snd (snd (buildQuery eng table (tempTable table) idColumn columns hasRevisions)) = None"
  then have h: "\<And>h c e. db h c = Inl e \<Longrightarrow> False"
    by (metis healthy_def Inl_Inr_False)
  from assms(1) have "res = None \<and> Log (ProcessedTotal 0) \<in> set tr \<and> progress tr = []"
  proof (cases rule: Upsert_cases)
    case (build e q r)
    with a show ?thesis by simp
  next
    case (run query rq)
    from run(2) a show ?thesis
      by cases (auto simp: trace_defs dest: h)
  qed
  then show "res = None" and "Log (ProcessedTotal 0) \<in> set tr" and "progress tr = []"
    by simp_all
qed

theorem processed_row_counter_witness:
  "length [[''1'', ''null''], [''2'', '''']] < 2 ^ 63 \<and> healthy okDb \<and>
   accepted [[''1'', ''null''], [''2'', '''']]
     (snd (Upsert demoEngine okDb ''users'' ''id'' [''id'', ''name'']
        [[''1'', ''null''], [''2'', '''']] True)) = 2 \<and>
   Log (ProcessedTotal 2) \<in> set (snd (Upsert demoEngine okDb ''users'' ''id'' [''id'', ''name'']
        [[''1'', ''null''], [''2'', '''']] True)) \<and>
   progress (snd (Upsert demoEngine okDb ''users'' ''id'' [''id'', ''name'']
        [[''1'', ''null''], [''2'', '''']] True)) = [] \<and>
   fst (copyRows okDb ''users'' [[''1'', ''null''], [''2'', '''']] 0 []) = Inr 2 \<and>
   fst (Upsert demoEngine okDb ''users'' ''id'' [''id'', ''name''] [] True) = None \<and>
   Log (ProcessedTotal 0)
     \<in> set (snd (Upsert demoEngine okDb ''users'' ''id'' [''id'', ''name''] [] True)) \<and>
   progress (snd (Upsert demoEngine okDb ''users'' ''id'' [''id'']
        (replicate 100000 [''7'']) True)) = [100000]"
proof -
  let ?rows = "replicate 100000 [''7'']"
  let ?run = "Upsert demoEngine okDb ''users'' ''id'' [''id''] ?rows True"
  have ok: "healthy okDb" by (simp add: healthy_def okDb_def)
  have run: "?run = (fst ?run, snd ?run)" by simp
  have len: "length ?rows < 2 ^ 63" by simp
  have build: "snd (snd (buildQuery demoEngine ''users'' (tempTable ''users'') ''id'' [''id''] True)) = None"
    by (simp add: buildQuery_def demoEngine_def)
  have "accepted ?rows (snd ?run) = 100000"
    using healthy_completes [OF ok run build] by simp
  with processed_row_counter [OF run len] have big: "progress (snd ?run) = [100000]"
    by (simp only: first_multiple list.map of_nat_numeral)
  have small: "length [[''1'', ''null''], [''2'', '''']] < 2 ^ 63 \<and> 
   accepted [[''1'', ''null''], [''2'', '''']]
     (snd (Upsert demoEngine okDb ''users'' ''id'' [''id'', ''name'']
        [[''1'', ''null''], [''2'', '''']] True)) = 2 \<and>
   Log (ProcessedTotal 2) \<in> set (snd (Upsert demoEngine okDb ''users'' ''id'' [''id'', ''name'']
        [[''1'', ''null''], [''2'', '''']] True)) \<and>
   progress (snd (Upsert demoEngine okDb ''users'' ''id'' [''id'', ''name'']
        [[''1'', ''null''], [''2'', '''']] True)) = [] \<and>
   fst (copyRows okDb ''users'' [[''1'', ''null''], [''2'', '''']] 0 []) = Inr 2 \<and>
   fst (Upsert demoEngine okDb ''users'' ''id'' [''id'', ''name''] [] True) = None \<and>
   Log (ProcessedTotal 0)
     \<in> set (snd (Upsert demoEngine okDb ''users'' ''id'' [''id'', ''name''] [] True))"
    using processed_row_counter [OF demo_ok_run] processed_row_counter [OF demo_empty_run]
    unfolding demo_ok_run demo_empty_run fst_conv snd_conv
    by (simp add: healthy_def okDb_def accepted_def
        copyRows.simps(2) exec_def convertRow_def Let_def smod_int_alt_def)
  from small ok big show ?thesis by simp
qed

text \<open>
  C10 (as amended). \<open>sub(a, b)\<close> returns \<open>b - a\<close> in Go's wrapping \<open>int\<close>
  arithmetic, which is the integer difference whenever that fits the type. \<open>eq(x, y)\<close>
  returns whether \<open>x\<close> and \<open>y\<close> are equal when their dynamic types differ or are
  comparable; on two values of the same uncomparable type (two slices, two descriptors) it
  does not return: the comparison panics. The claim as stated, for all values, fails on two
  equal slices.
\<close>

theorem fns_helpers:
  "fns_sub a b = b - a \<and>
   (- (2 ^ 63) \<le> sint b - sint a \<and> sint b - sint a < 2 ^ 63
      \<longrightarrow> sint (fns_sub a b) = sint b - sint a) \<and>
   (comparable x \<or> \<not> same_type x y \<longrightarrow> fns_eq x y = Inr (x = y)) \<and>
   (same_type x y \<and> \<not> comparable x \<longrightarrow> fns_eq x y = Inl UncomparableType)"
proof -
  have "sint (b - a) = sint b - sint a"
    if "- (2 ^ 63) \<le> sint b - sint a" and "sint b - sint a < 2 ^ 63"
    using that by (simp add: sint_word_ariths signed_take_bit_int_eq_self)
  moreover have "same_type x y" if "comparable x" and "\<not> comparable y" and "same_type x y" for x y
    using that by (cases x; cases y) simp_all
  then have "fns_eq x y = Inr (x = y)" if "comparable x \<or> \<not> same_type x y"
    using that by (cases x; cases y) (simp_all add: fns_eq_def)
  ultimately show ?thesis by (simp add: fns_sub_def fns_eq_def)
qed

theorem fns_helpers_witness:
  "fns_sub 2 5 = 3 \<and> sint (fns_sub 5 2) = - 3 \<and>
   fns_eq (GoString ''id'') (GoString ''id'') = Inr True \<and>
   fns_eq (GoString ''id'') (GoString ''name'') = Inr False \<and>
   fns_eq (GoInt 1) (GoString ''1'') = Inr False \<and>
   fns_eq (GoStrings [''id'']) (GoString ''id'') = Inr False \<and>
   fns_eq (GoStrings [''id'']) (GoStrings [''name'']) = Inl UncomparableType"
  using fns_helpers [of 2 5 "GoString ''id''" "GoString ''id''"]
    fns_helpers [of 5 2 "GoString ''id''" "GoString ''name''"]
    fns_helpers [of 0 0 "GoInt 1" "GoString ''1''"]
    fns_helpers [of 0 0 "GoStrings [''id'']" "GoString ''id''"]
    fns_helpers [of 0 0 "GoStrings [''id'']" "GoStrings [''name'']"]
  by simp

theorem fns_eq_slices_counterexample:
  "fns_eq (GoStrings [''id'']) (GoStrings [''id'']) = Inl UncomparableType"
  by (simp add: fns_eq_def)

end
